theory Spec2Isabelle
  imports Main "HOL-Library.Sublist" "HOL-Library.AList"
begin

section \<open>Cards, players and the game object\<close>

text \<open>
  The card classes of \<^verbatim>\<open>main.py\<close> (lines 60-269). Every class carries the slot
  \<open>colour\<close> (a string or None); \<open>NumberedCard\<close> adds \<open>number\<close>. The method
  \<^verbatim>\<open>__eq__\<close> compares the class, the colour and (for numbered cards) the number, which
  is the structural equality of this datatype.
\<close>

datatype card =
    NumberedCard (colour: "string option") (number: int)
  | SkipCard (colour: "string option")
  | DrawTwoCard (colour: "string option")
  | ReverseCard (colour: "string option")
  | DrawFourCard (colour: "string option")
  | WildCard (colour: "string option")

text \<open>The assignment \<^verbatim>\<open>card.colour = v\<close>.\<close>

fun set_colour :: "card \<Rightarrow> string option \<Rightarrow> card" where
  "set_colour (NumberedCard _ n) v = NumberedCard v n"
| "set_colour (SkipCard _) v = SkipCard v"
| "set_colour (DrawTwoCard _) v = DrawTwoCard v"
| "set_colour (ReverseCard _) v = ReverseCard v"
| "set_colour (DrawFourCard _) v = DrawFourCard v"
| "set_colour (WildCard _) v = WildCard v"

definition COLOUR_LIST :: "string list" where
  "COLOUR_LIST = [''Red'', ''Yellow'', ''Green'', ''Blue'']"

definition BOOL_CHOICES :: "string list" where
  "BOOL_CHOICES = [''True'', ''False'']"

text \<open>
  Card objects are mutable and shared: a hand, the deck and the pile are Python lists of
  references. The model keeps the objects in a heap (a list of card values, an object's
  address being its index, in allocation order) and every hand, the deck and the pile as
  lists of addresses. Players are objects too; they live in \<open>player_list\<close> for the whole
  game and are identified by their position in it.

  The run of a game also depends on the outside world: \<open>rnd\<close> is the sequence of picks
  the module \<^verbatim>\<open>random\<close> will deliver and \<open>inp\<close> the lines the console will deliver to
  \<^verbatim>\<open>input()\<close>. The field \<open>offers\<close> is an observation, not program state: it records, in
  order, the players whose jump-in decision was requested (lines 490-493).
\<close>

record player =
  name :: string
  human :: bool
  hand :: "nat list"

record game =
  heap :: "card list"
  player_list :: "player list"
  deck :: "nat list"
  pile :: "nat list"
  turn :: int
  spin :: int
  jump_in :: bool
  stacking :: bool
  seven_zero :: bool
  rnd :: "nat list"
  inp :: "string list"
  offers :: "nat list"

text \<open>
  Exceptions are values. A raised exception carries the state in which it was raised
  (\<^verbatim>\<open>main\<close> saves that state before re-raising). \<open>RandomExhausted\<close> and \<open>OutOfFuel\<close>
  are not Python exceptions: they say that the supplied picks, or the recursion budget
  of \<open>play_card\<close>, ran out before the run finished.
\<close>

datatype error =
    SystemExit | IndexError | ValueError | AttributeError | TypeError | EOFError
  | RandomExhausted | OutOfFuel

type_synonym 'a result = "(error \<times> game) + 'a"

definition and_then :: "'a result \<Rightarrow> ('a \<Rightarrow> 'b result) \<Rightarrow> 'b result" where
  "and_then r f = (case r of Inl e \<Rightarrow> Inl e | Inr x \<Rightarrow> f x)"

section \<open>Built-ins: \<^verbatim>\<open>str\<close>, \<^verbatim>\<open>int\<close>, \<^verbatim>\<open>list.remove\<close>, \<^verbatim>\<open>in\<close>, \<^verbatim>\<open>random.choice\<close>, \<^verbatim>\<open>input\<close>\<close>

definition digit_char :: "nat \<Rightarrow> char" where
  "digit_char d = ''0123456789'' ! d"

fun str_nat :: "nat \<Rightarrow> string" where
  "str_nat n = (if n < 10 then [digit_char n] else str_nat (n div 10) @ [digit_char (n mod 10)])"

declare str_nat.simps [simp del]

text \<open>\<^verbatim>\<open>str(i)\<close> for an integer.\<close>

definition str_int :: "int \<Rightarrow> string" where
  "str_int i = (if i < 0 then CHR ''-'' # str_nat (nat (- i)) else str_nat (nat i))"

text \<open>The value of a decimal digit: its position among the ten digits.\<close>

definition char_digit :: "char \<Rightarrow> nat option" where
  "char_digit c =
     (let i = length (takeWhile (\<lambda>d. d \<noteq> c) ''0123456789'') in
      if i < 10 then Some i else None)"

fun parse_digits :: "nat \<Rightarrow> string \<Rightarrow> nat option" where
  "parse_digits acc [] = Some acc"
| "parse_digits acc (c # cs) =
     (case char_digit c of None \<Rightarrow> None | Some d \<Rightarrow> parse_digits (10 * acc + d) cs)"

text \<open>
  \<^verbatim>\<open>int(s)\<close> on the decimal literals that \<^verbatim>\<open>str\<close> produces (an optional sign and at
  least one digit); None stands for ValueError. Python's \<^verbatim>\<open>int\<close> also accepts
  surrounding white space and underscores between digits, which no string of this
  program contains.
\<close>

definition int_str :: "string \<Rightarrow> int option" where
  "int_str s =
     (case s of
        [] \<Rightarrow> None
      | c # cs \<Rightarrow>
          if c = CHR ''-'' then (if cs = [] then None else map_option (\<lambda>n. - int n) (parse_digits 0 cs))
          else if c = CHR ''+'' then (if cs = [] then None else map_option int (parse_digits 0 cs))
          else map_option int (parse_digits 0 s))"

text \<open>
  \<^verbatim>\<open>xs.remove(x)\<close> deletes the first element that is \<open>x\<close> or equal to \<open>x\<close> under
  \<^verbatim>\<open>__eq__\<close>; None stands for ValueError. \<^verbatim>\<open>x in xs\<close> uses the same comparison.
\<close>

fun py_remove :: "card list \<Rightarrow> nat \<Rightarrow> nat list \<Rightarrow> nat list option" where
  "py_remove h x [] = None"
| "py_remove h x (y # ys) =
     (if y = x \<or> h ! y = h ! x then Some ys else map_option ((#) y) (py_remove h x ys))"

definition py_in :: "card list \<Rightarrow> nat \<Rightarrow> nat list \<Rightarrow> bool" where
  "py_in h x ys = list_ex (\<lambda>y. y = x \<or> h ! y = h ! x) ys"

text \<open>\<^verbatim>\<open>random.choice(xs)\<close>: IndexError on an empty sequence, else the next pick.\<close>

definition random_choice :: "game \<Rightarrow> 'a list \<Rightarrow> ('a \<times> game) result" where
  "random_choice g xs =
     (if xs = [] then Inl (IndexError, g)
      else case rnd g of
             [] \<Rightarrow> Inl (RandomExhausted, g)
           | r # rs \<Rightarrow> Inr (xs ! (r mod length xs), g\<lparr>rnd := rs\<rparr>))"

text \<open>
  \<^verbatim>\<open>get_input\<close> (lines 29-38): read lines until one is among the choices; the line
  \<^verbatim>\<open>Exit\<close> leaves the program; the end of the input is \<^verbatim>\<open>input()\<close>'s EOFError.
\<close>

fun get_input_lines :: "string list \<Rightarrow> string list \<Rightarrow> (error \<times> string list) + (string \<times> string list)" where
  "get_input_lines [] choices = Inl (EOFError, [])"
| "get_input_lines (choice # ls) choices =
     (if choice \<in> set choices then Inr (choice, ls)
      else if choice = ''Exit'' then Inl (SystemExit, ls)
      else get_input_lines ls choices)"

definition get_input :: "game \<Rightarrow> string list \<Rightarrow> (string \<times> game) result" where
  "get_input g choices =
     (case get_input_lines (inp g) choices of
        Inl (e, ls) \<Rightarrow> Inl (e, g\<lparr>inp := ls\<rparr>)
      | Inr (choice, ls) \<Rightarrow> Inr (choice, g\<lparr>inp := ls\<rparr>))"

section \<open>Turn order and the top of the pile\<close>

fun first_index :: "('a \<Rightarrow> bool) \<Rightarrow> 'a list \<Rightarrow> nat option" where
  "first_index P [] = None"
| "first_index P (x # xs) = (if P x then Some 0 else map_option Suc (first_index P xs))"

text \<open>
  \<^verbatim>\<open>player_from_turn\<close> (lines 472-475): the first player whose name contains
  \<^verbatim>\<open>str(turn)\<close>; the Python function falls off its end and returns None otherwise.
\<close>

definition player_from_turn :: "game \<Rightarrow> int \<Rightarrow> nat option" where
  "player_from_turn g t = first_index (\<lambda>p. sublist (str_int t) (name p)) (player_list g)"

text \<open>The property \<^verbatim>\<open>next_turn\<close> (lines 412-419).\<close>

definition next_turn :: "game \<Rightarrow> int" where
  "next_turn g =
     (let next_turn_int = turn g + spin g in
      if next_turn_int > int (length (player_list g)) then 1
      else if next_turn_int = 0 then int (length (player_list g))
      else next_turn_int)"

text \<open>
  The property \<^verbatim>\<open>top_pile_card\<close> (lines 399-410). On an empty pile it draws random cards
  from the deck until it draws a numbered one, which seeds the pile: \<open>seed_pile\<close> is
  that loop, one pick per iteration.
\<close>

fun seed_pile :: "nat list \<Rightarrow> game \<Rightarrow> game result" where
  "seed_pile [] g =
     (if deck g = [] then Inl (IndexError, g\<lparr>rnd := []\<rparr>) else Inl (RandomExhausted, g\<lparr>rnd := []\<rparr>))"
| "seed_pile (r # rs) g =
     (if deck g = [] then Inl (IndexError, g\<lparr>rnd := r # rs\<rparr>)
      else let crd = deck g ! (r mod length (deck g)) in
        if is_NumberedCard (heap g ! crd) then
          (case py_remove (heap g) crd (deck g) of
             None \<Rightarrow> Inl (ValueError, g\<lparr>rnd := rs\<rparr>)
           | Some deck' \<Rightarrow> Inr (g\<lparr>deck := deck', pile := pile g @ [crd], rnd := rs\<rparr>))
        else seed_pile rs g)"

definition top_pile_card :: "game \<Rightarrow> (nat \<times> game) result" where
  "top_pile_card g =
     (if pile g \<noteq> [] then Inr (last (pile g), g)
      else case seed_pile (rnd g) g of
             Inl e \<Rightarrow> Inl e
           | Inr g' \<Rightarrow> Inr (last (pile g'), g'))"

section \<open>The legality filter\<close>

text \<open>
  \<^verbatim>\<open>Player.playable_cards\<close> (lines 290-317). \<open>first_pass\<close> is the body of the first
  loop for one card of the hand: the addresses it appends. \<open>playable_from\<close> runs the
  first loop and then the second, which appends a DrawFourCard only while the list is
  still empty.
\<close>

definition first_pass :: "card \<Rightarrow> bool \<Rightarrow> card list \<Rightarrow> nat \<Rightarrow> nat list" where
  "first_pass current stack h a =
     (let crd = h ! a in
      (if is_WildCard crd then [a] else []) @
      (if is_DrawFourCard crd \<and> is_DrawFourCard current \<and> stack then [a]
       else if is_NumberedCard crd \<and> is_NumberedCard current \<and> number crd = number current then [a]
       else if colour crd = colour current \<and> \<not> (is_WildCard crd \<or> is_DrawFourCard crd) then [a]
       else concat (map (\<lambda>cls. if cls crd \<and> cls current then [a] else [])
                      [is_SkipCard, is_ReverseCard, is_DrawTwoCard])))"

definition second_pass :: "card list \<Rightarrow> nat list \<Rightarrow> nat list \<Rightarrow> nat list" where
  "second_pass h cards playable =
     foldl (\<lambda>acc a. if acc = [] \<and> is_DrawFourCard (h ! a) then acc @ [a] else acc) playable cards"

definition playable_from :: "card list \<Rightarrow> nat list \<Rightarrow> card \<Rightarrow> bool \<Rightarrow> nat list" where
  "playable_from h cards current stack =
     second_pass h cards (concat (map (first_pass current stack h) cards))"

definition playable_cards :: "game \<Rightarrow> nat \<Rightarrow> (nat list \<times> game) result" where
  "playable_cards g p =
     (case top_pile_card g of
        Inl e \<Rightarrow> Inl e
      | Inr (current, g') \<Rightarrow>
          Inr (playable_from (heap g') (hand (player_list g' ! p)) (heap g' ! current) (stacking g'), g'))"

section \<open>Dealing and the reshuffle\<close>

definition set_hand :: "player list \<Rightarrow> nat \<Rightarrow> nat list \<Rightarrow> player list" where
  "set_hand ps i cs = ps[i := (ps ! i)\<lparr>hand := cs\<rparr>]"

text \<open>
  The loop of lines 465-468, run \<open>len(pile) - 1\<close> times: the first card of the pile is
  removed from the pile and appended to the deck.
\<close>

fun reshuffle :: "nat \<Rightarrow> game \<Rightarrow> game result" where
  "reshuffle 0 g = Inr g"
| "reshuffle (Suc n) g =
     (case pile g of
        [] \<Rightarrow> Inl (IndexError, g)
      | crd # _ \<Rightarrow>
          (case py_remove (heap g) crd (pile g) of
             None \<Rightarrow> Inl (ValueError, g)
           | Some pile' \<Rightarrow> reshuffle n (g\<lparr>pile := pile', deck := deck g @ [crd]\<rparr>)))"

text \<open>
  \<^verbatim>\<open>deal_card\<close> (lines 458-470). The player argument is what \<^verbatim>\<open>player_from_turn\<close>
  returned, so it can be None: then \<^verbatim>\<open>player.hand\<close> raises AttributeError after the
  card has left the deck.
\<close>

definition deal_card :: "game \<Rightarrow> nat option \<Rightarrow> (nat \<times> game) result" where
  "deal_card g p =
     (case random_choice g (deck g) of
        Inl e \<Rightarrow> Inl e
      | Inr (crd, g1) \<Rightarrow>
          (case py_remove (heap g1) crd (deck g1) of
             None \<Rightarrow> Inl (ValueError, g1)
           | Some deck' \<Rightarrow>
               let g2 = g1\<lparr>deck := deck'\<rparr> in
               (case p of
                  None \<Rightarrow> Inl (AttributeError, g2)
                | Some i \<Rightarrow>
                    let g3 = g2\<lparr>player_list :=
                               set_hand (player_list g2) i (hand (player_list g2 ! i) @ [crd])\<rparr> in
                    if deck g3 = [] then
                      (case reshuffle (length (pile g3) - 1) g3 of
                         Inl e \<Rightarrow> Inl e
                       | Inr g4 \<Rightarrow> Inr (crd, g4))
                    else Inr (crd, g3))))"

fun deal_cards :: "nat \<Rightarrow> game \<Rightarrow> nat option \<Rightarrow> game result" where
  "deal_cards 0 g p = Inr g"
| "deal_cards (Suc n) g p =
     (case deal_card g p of
        Inl e \<Rightarrow> Inl e
      | Inr (_, g') \<Rightarrow> deal_cards n g' p)"

section \<open>Card effects\<close>

text \<open>
  \<^verbatim>\<open>NumberedCard.play\<close> (lines 116-161). \<open>swap_hands\<close> is lines 133-137 and
  \<open>rotate_hands\<close> lines 143-159: the hands are copied first, then assigned player by
  player in the order of the two loops of the source.
\<close>

definition swap_hands :: "game \<Rightarrow> nat \<Rightarrow> nat \<Rightarrow> game" where
  "swap_hands g current_player new_player =
     (let current_player_hand = hand (player_list g ! current_player);
          new_player_hand = hand (player_list g ! new_player)
      in g\<lparr>player_list :=
             set_hand (set_hand (player_list g) current_player new_player_hand)
               new_player current_player_hand\<rparr>)"

definition rotate_hands :: "game \<Rightarrow> game result" where
  "rotate_hands g =
     (let player_hands = map hand (player_list g); n = length player_hands in
      if n = 0 then Inl (IndexError, g)
      else if spin g = 1 then
        Inr (g\<lparr>player_list :=
                 set_hand (foldl (\<lambda>ps i. set_hand ps (i + 1) (player_hands ! i))
                             (player_list g) [0..<n - 1])
                   0 (last player_hands)\<rparr>)
      else
        Inr (g\<lparr>player_list :=
                 set_hand (foldl (\<lambda>ps i. set_hand ps i (player_hands ! (i + 1)))
                             (player_list g) [0..<n - 1])
                   (n - 1) (hd player_hands)\<rparr>))"

definition NumberedCard_play :: "game \<Rightarrow> nat \<Rightarrow> game result" where
  "NumberedCard_play g self =
     (if seven_zero g then
        (let current_player = player_from_turn g (turn g) in
         if number (heap g ! self) = 7 then
           (let other_player_list =
                  filter (\<lambda>i. Some i \<noteq> current_player) [0..<length (player_list g)] in
            case current_player of
              None \<Rightarrow> Inl (AttributeError, g)
            | Some cp \<Rightarrow>
                and_then
                  (if human (player_list g ! cp) then
                     and_then (get_input g (map (\<lambda>i. name (player_list g ! i)) other_player_list))
                       (\<lambda>(new_player_name, g').
                          case first_index (\<lambda>p. name p = new_player_name) (player_list g') of
                            None \<Rightarrow> Inl (IndexError, g')
                          | Some new_player \<Rightarrow> Inr (new_player, g'))
                   else random_choice g other_player_list)
                  (\<lambda>(new_player, g'). Inr (swap_hands g' cp new_player)))
         else if number (heap g ! self) = 0 then rotate_hands g
         else Inr g)
      else Inr g)"

text \<open>\<^verbatim>\<open>SkipCard.play\<close> (lines 168-169) and \<^verbatim>\<open>ReverseCard.play\<close> (lines 209-210).\<close>

definition SkipCard_play :: "game \<Rightarrow> game result" where
  "SkipCard_play g = Inr (g\<lparr>turn := next_turn g\<rparr>)"

definition ReverseCard_play :: "game \<Rightarrow> game result" where
  "ReverseCard_play g = Inr (g\<lparr>spin := spin g * (- 1)\<rparr>)"

text \<open>
  The counting loop shared by the two \<^verbatim>\<open>activate\<close> methods (lines 177-184 and
  221-228): one, plus, under stacking, the cards of the given class met walking down
  the pile from below its top card.
\<close>

definition stack_count :: "(card \<Rightarrow> bool) \<Rightarrow> game \<Rightarrow> nat" where
  "stack_count cls g =
     1 + (if stacking g
          then length (takeWhile (\<lambda>a. cls (heap g ! a)) (rev (butlast (pile g))))
          else 0)"

text \<open>
  \<^verbatim>\<open>DrawTwoCard.activate\<close> (lines 176-189): \<open>count\<close> only reaches the printed
  message; the loop of line 187 runs \<^verbatim>\<open>range(2)\<close>.
\<close>

definition DrawTwoCard_activate :: "game \<Rightarrow> nat option \<Rightarrow> game result" where
  "DrawTwoCard_activate g p =
     (let count = stack_count is_DrawTwoCard g in
      and_then (deal_cards 2 g p) (\<lambda>g'. Inr (g'\<lparr>turn := next_turn g'\<rparr>)))"

definition DrawTwoCard_play :: "game \<Rightarrow> game result" where
  "DrawTwoCard_play g =
     (let next_player = player_from_turn g (next_turn g) in
      if \<not> stacking g then DrawTwoCard_activate g next_player
      else case next_player of
             None \<Rightarrow> Inl (AttributeError, g)
           | Some np \<Rightarrow>
               if list_ex (\<lambda>c. is_DrawTwoCard (heap g ! c)) (hand (player_list g ! np)) then Inr g
               else DrawTwoCard_activate g next_player)"

text \<open>\<^verbatim>\<open>DrawFourCard.activate\<close> (lines 220-233): the loop runs \<^verbatim>\<open>range(4 * count)\<close>.\<close>

definition DrawFourCard_activate :: "game \<Rightarrow> nat option \<Rightarrow> game result" where
  "DrawFourCard_activate g p =
     (let count = stack_count is_DrawFourCard g in
      and_then (deal_cards (4 * count) g p) (\<lambda>g'. Inr (g'\<lparr>turn := next_turn g'\<rparr>)))"

text \<open>
  The colour choice that opens \<^verbatim>\<open>DrawFourCard.play\<close> and is all of
  \<^verbatim>\<open>WildCard.play\<close> (lines 236-241 and 264-269): the colour is written into the card
  object.
\<close>

definition choose_colour :: "game \<Rightarrow> nat \<Rightarrow> game result" where
  "choose_colour g self =
     (case player_from_turn g (turn g) of
        None \<Rightarrow> Inl (AttributeError, g)
      | Some cp \<Rightarrow>
          and_then
            (if human (player_list g ! cp) then get_input g COLOUR_LIST
             else random_choice g COLOUR_LIST)
            (\<lambda>(c, g'). Inr (g'\<lparr>heap := (heap g')[self := set_colour (heap g' ! self) (Some c)]\<rparr>)))"

definition DrawFourCard_play :: "game \<Rightarrow> nat \<Rightarrow> game result" where
  "DrawFourCard_play g self =
     and_then (choose_colour g self)
       (\<lambda>g1. let next_player = player_from_turn g1 (next_turn g1) in
          if \<not> stacking g1 then DrawFourCard_activate g1 next_player
          else case next_player of
                 None \<Rightarrow> Inl (AttributeError, g1)
               | Some np \<Rightarrow>
                   if list_ex (\<lambda>c. is_DrawFourCard (heap g1 ! c)) (hand (player_list g1 ! np))
                   then Inr g1
                   else DrawFourCard_activate g1 next_player)"

definition WildCard_play :: "game \<Rightarrow> nat \<Rightarrow> game result" where
  "WildCard_play g self = choose_colour g self"

text \<open>The dynamic dispatch of \<^verbatim>\<open>card.play()\<close> on the class of the object.\<close>

definition card_play :: "game \<Rightarrow> nat \<Rightarrow> game result" where
  "card_play g self =
     (case heap g ! self of
        NumberedCard _ _ \<Rightarrow> NumberedCard_play g self
      | SkipCard _ \<Rightarrow> SkipCard_play g
      | DrawTwoCard _ \<Rightarrow> DrawTwoCard_play g
      | ReverseCard _ \<Rightarrow> ReverseCard_play g
      | DrawFourCard _ \<Rightarrow> DrawFourCard_play g self
      | WildCard _ \<Rightarrow> WildCard_play g self)"

section \<open>Playing a card and the jump-in window\<close>

text \<open>
  The jump-in decision of lines 490-493, a console answer for a human and a random pick
  for the others; the request is recorded in \<open>offers\<close>.
\<close>

definition ask_jump_in :: "game \<Rightarrow> nat \<Rightarrow> (bool \<times> game) result" where
  "ask_jump_in g p =
     (let g0 = g\<lparr>offers := offers g @ [p]\<rparr> in
      if human (player_list g0 ! p) then
        and_then (get_input g0 BOOL_CHOICES) (\<lambda>(answer, g'). Inr (answer = ''True'', g'))
      else random_choice g0 [True, False])"

text \<open>\<^verbatim>\<open>int(player.name[-1])\<close> of line 498.\<close>

definition turn_of_name :: "string \<Rightarrow> error + int" where
  "turn_of_name s =
     (if s = [] then Inl IndexError
      else case int_str [last s] of None \<Rightarrow> Inl ValueError | Some t \<Rightarrow> Inr t)"

text \<open>
  \<^verbatim>\<open>play_jump_in\<close> (lines 477-503). \<open>jump_in_hand\<close> is the inner loop over one
  player's hand; its \<^verbatim>\<open>break\<close> (line 500) leaves only that loop. \<open>jump_in_players\<close> is the
  outer loop, which has no \<^verbatim>\<open>break\<close> of its own, so the \<^verbatim>\<open>else\<close> clause of the outer
  \<^verbatim>\<open>for\<close> (lines 502-503) runs whenever the loop ends. The argument \<open>pc\<close> is the
  recursive call of \<^verbatim>\<open>play_card\<close>.
\<close>

fun jump_in_hand ::
  "(game \<Rightarrow> nat \<Rightarrow> nat \<Rightarrow> game result) \<Rightarrow> nat \<Rightarrow> nat \<Rightarrow> nat list \<Rightarrow> game \<Rightarrow> game result" where
  "jump_in_hand pc crd p [] g = Inr g"
| "jump_in_hand pc crd p (player_card # rest) g =
     (if is_WildCard (heap g ! crd) \<or> is_DrawFourCard (heap g ! crd) then jump_in_hand pc crd p rest g
      else if heap g ! player_card = heap g ! crd then
        and_then (ask_jump_in g p)
          (\<lambda>(jump, g').
             if jump then
               (case turn_of_name (name (player_list g' ! p)) of
                  Inl e \<Rightarrow> Inl (e, g')
                | Inr t \<Rightarrow> pc (g'\<lparr>turn := t\<rparr>) p player_card)
             else jump_in_hand pc crd p rest g')
      else jump_in_hand pc crd p rest g)"

fun jump_in_players ::
  "(game \<Rightarrow> nat \<Rightarrow> nat \<Rightarrow> game result) \<Rightarrow> nat \<Rightarrow> nat list \<Rightarrow> game \<Rightarrow> game result" where
  "jump_in_players pc crd [] g = Inr g"
| "jump_in_players pc crd (p # ps) g =
     (if Some p = player_from_turn g (next_turn g) \<and> is_SkipCard (heap g ! crd)
      then jump_in_players pc crd ps g
      else and_then (jump_in_hand pc crd p (hand (player_list g ! p)) g)
             (\<lambda>g'. jump_in_players pc crd ps g'))"

definition play_jump_in ::
  "(game \<Rightarrow> nat \<Rightarrow> nat \<Rightarrow> game result) \<Rightarrow> game \<Rightarrow> nat \<Rightarrow> game result" where
  "play_jump_in pc g crd =
     and_then (jump_in_players pc crd [0..<length (player_list g)] g) (\<lambda>g'. card_play g' crd)"

text \<open>
  \<^verbatim>\<open>play_card\<close> (lines 505-520). The first argument bounds the depth of the recursion
  through \<^verbatim>\<open>play_jump_in\<close>.
\<close>

primrec play_card :: "nat \<Rightarrow> game \<Rightarrow> nat \<Rightarrow> nat \<Rightarrow> game result" where
  "play_card 0 g p crd = Inl (OutOfFuel, g)"
| "play_card (Suc fuel) g p crd =
     (case py_remove (heap g) crd (hand (player_list g ! p)) of
        None \<Rightarrow> Inl (ValueError, g)
      | Some hand' \<Rightarrow>
          let g1 = g\<lparr>player_list := set_hand (player_list g) p hand', pile := pile g @ [crd]\<rparr> in
          if length hand' = 0 then Inl (SystemExit, g1)
          else if jump_in g1 then play_jump_in (play_card fuel) g1 crd
          else card_play g1 crd)"

section \<open>One turn of the game loop\<close>

text \<open>
  \<^verbatim>\<open>Player.get_played_card\<close> (lines 325-336). Every round of the human's loop consumes
  at least one line of input, so the loop is run with one round more than there are
  lines left.
\<close>

fun get_played_card_loop :: "nat \<Rightarrow> game \<Rightarrow> nat \<Rightarrow> (nat \<times> game) result" where
  "get_played_card_loop 0 g p = Inl (OutOfFuel, g)"
| "get_played_card_loop (Suc k) g p =
     (let cards = hand (player_list g ! p);
          index_range = map (\<lambda>i. str_int (int i + 1)) [0..<length cards] in
      and_then (get_input g index_range)
        (\<lambda>(answer, g1).
           case int_str answer of
             None \<Rightarrow> Inl (ValueError, g1)
           | Some index \<Rightarrow>
               let chosen_card = cards ! nat (index - 1) in
               and_then (playable_cards g1 p)
                 (\<lambda>(playable, g2).
                    if py_in (heap g2) chosen_card playable then Inr (chosen_card, g2)
                    else get_played_card_loop k g2 p)))"

definition get_played_card :: "game \<Rightarrow> nat \<Rightarrow> (nat \<times> game) result" where
  "get_played_card g p =
     (if human (player_list g ! p) then get_played_card_loop (Suc (length (inp g))) g p
      else and_then (playable_cards g p) (\<lambda>(playable, g'). random_choice g' playable))"

text \<open>The loop of lines 541-543: the wild cards of a hand lose their colour.\<close>

definition reset_colours :: "card list \<Rightarrow> nat list \<Rightarrow> card list" where
  "reset_colours h cards =
     foldl (\<lambda>h' c. if is_WildCard (h' ! c) \<or> is_DrawFourCard (h' ! c)
                    then h'[c := set_colour (h' ! c) None] else h') h cards"

text \<open>
  One iteration of the \<^verbatim>\<open>while True\<close> of \<^verbatim>\<open>run_game\<close> (lines 536-570). The list
  \<open>playable\<close> is computed once (line 547); line 560 tests that same list again.
\<close>

definition run_game_turn :: "nat \<Rightarrow> game \<Rightarrow> game result" where
  "run_game_turn fuel g =
     (case player_from_turn g (turn g) of
        None \<Rightarrow> Inl (AttributeError, g)
      | Some current_player \<Rightarrow>
          let g1 = g\<lparr>heap := reset_colours (heap g) (hand (player_list g ! current_player))\<rparr> in
          and_then (playable_cards g1 current_player)
            (\<lambda>(playable, g2).
               and_then
                 (if playable = [] then
                    and_then (deal_card g2 (Some current_player))
                      (\<lambda>(new_card, g3).
                         if playable \<noteq> [] then play_card fuel g3 current_player (hd playable)
                         else Inr g3)
                  else
                    and_then (get_played_card g2 current_player)
                      (\<lambda>(crd, g3). play_card fuel g3 current_player crd))
                 (\<lambda>g4. and_then (top_pile_card (g4\<lparr>turn := next_turn g4\<rparr>)) (\<lambda>(_, g5). Inr g5))))"

text \<open>The opening of \<^verbatim>\<open>run_game\<close> (lines 531-532): a top card without a colour gets a random one.\<close>

definition run_game_start :: "game \<Rightarrow> game result" where
  "run_game_start g =
     and_then (top_pile_card g)
       (\<lambda>(top, g1).
          if colour (heap g1 ! top) = None \<or> colour (heap g1 ! top) = Some [] then
            and_then (random_choice g1 COLOUR_LIST)
              (\<lambda>(c, g2). and_then (top_pile_card g2)
                 (\<lambda>(top', g3). Inr (g3\<lparr>heap := (heap g3)[top' := set_colour (heap g3 ! top') (Some c)]\<rparr>)))
          else Inr g1)"

section \<open>A new game\<close>

text \<open>\<^verbatim>\<open>init_cards\<close> (lines 438-456): the 27 cards of one colour, in creation order.\<close>

definition colour_cards :: "string \<Rightarrow> card list" where
  "colour_cards c =
     [WildCard None, DrawFourCard None] @
     concat (replicate 2
       (map (\<lambda>i. NumberedCard (Some c) (int i)) [1..<10] @
        [SkipCard (Some c), DrawTwoCard (Some c), ReverseCard (Some c)])) @
     [NumberedCard (Some c) 0]"

fun deal_round :: "nat list \<Rightarrow> game \<Rightarrow> game result" where
  "deal_round [] g = Inr g"
| "deal_round (p # ps) g =
     (case deal_card g (Some p) of Inl e \<Rightarrow> Inl e | Inr (_, g') \<Rightarrow> deal_round ps g')"

fun deal_rounds :: "nat \<Rightarrow> game \<Rightarrow> game result" where
  "deal_rounds 0 g = Inr g"
| "deal_rounds (Suc n) g =
     (case deal_round [0..<length (player_list g)] g of
        Inl e \<Rightarrow> Inl e
      | Inr g' \<Rightarrow> deal_rounds n g')"

definition init_cards :: "game \<Rightarrow> game result" where
  "init_cards g =
     (let new_cards = concat (map colour_cards COLOUR_LIST) in
      deal_rounds 7
        (g\<lparr>heap := heap g @ new_cards,
           deck := deck g @ [length (heap g)..<length (heap g) + length new_cards]\<rparr>))"

text \<open>
  \<^verbatim>\<open>UnoGame.__init__\<close> with \<^verbatim>\<open>new_game=True\<close> (lines 354-373): the humans come first,
  the players are named \<^verbatim>\<open>Player 1\<close>, \<^verbatim>\<open>Player 2\<close>, and so on.
\<close>

definition new_game ::
  "nat \<Rightarrow> nat \<Rightarrow> bool \<Rightarrow> bool \<Rightarrow> bool \<Rightarrow> nat list \<Rightarrow> string list \<Rightarrow> game result" where
  "new_game player_count human_count jump stack seven picks lines =
     init_cards
       \<lparr>heap = [],
        player_list =
          map (\<lambda>count. \<lparr>name = ''Player '' @ str_int (int count), human = count \<le> human_count, hand = []\<rparr>)
            [1..<Suc (human_count + (player_count - human_count))],
        deck = [], pile = [], turn = 1, spin = 1,
        jump_in = jump, stacking = stack, seven_zero = seven,
        rnd = picks, inp = lines, offers = []\<rparr>"

section \<open>Saving and loading\<close>

text \<open>
  \<^verbatim>\<open>__repr__\<close> (lines 74-75 and 110-111): the class name, the colour as \<^verbatim>\<open>str\<close> prints
  it (\<^verbatim>\<open>None\<close> for no colour) and, for a numbered card, the number.
\<close>

fun class_name :: "card \<Rightarrow> string" where
  "class_name (NumberedCard _ _) = ''NumberedCard''"
| "class_name (SkipCard _) = ''SkipCard''"
| "class_name (DrawTwoCard _) = ''DrawTwoCard''"
| "class_name (ReverseCard _) = ''ReverseCard''"
| "class_name (DrawFourCard _) = ''DrawFourCard''"
| "class_name (WildCard _) = ''WildCard''"

definition base_repr :: "card \<Rightarrow> string" where
  "base_repr c = class_name c @ '':'' @ (case colour c of None \<Rightarrow> ''None'' | Some s \<Rightarrow> s)"

definition repr :: "card \<Rightarrow> string" where
  "repr c = (case c of NumberedCard _ n \<Rightarrow> base_repr c @ '':'' @ str_int n | _ \<Rightarrow> base_repr c)"

text \<open>\<^verbatim>\<open>s.split(sep)\<close> for a separator of one character.\<close>

fun split_on :: "char \<Rightarrow> string \<Rightarrow> string list" where
  "split_on sep [] = [[]]"
| "split_on sep (c # cs) =
     (if c = sep then [] # split_on sep cs
      else case split_on sep cs of [] \<Rightarrow> [[c]] | w # ws \<Rightarrow> (c # w) # ws)"

text \<open>
  \<^verbatim>\<open>BaseUnoCard.from_string\<close> (lines 80-90). The last branch looks the class up by
  name in the module; the model knows the three remaining card classes and answers
  AttributeError to every other name.
\<close>

definition from_string :: "string \<Rightarrow> error + card" where
  "from_string string =
     (let components = split_on CHR '':'' string in
      if hd components = ''NumberedCard'' then
        (case components of
           _ # c # n # _ \<Rightarrow>
             (case int_str n of None \<Rightarrow> Inl ValueError | Some i \<Rightarrow> Inr (NumberedCard (Some c) i))
         | _ \<Rightarrow> Inl IndexError)
      else if hd components = ''DrawFourCard'' then Inr (DrawFourCard None)
      else if hd components = ''WildCard'' then Inr (WildCard None)
      else if hd components \<in> {''SkipCard'', ''DrawTwoCard'', ''ReverseCard''} then
        (case components of
           k # c # _ \<Rightarrow>
             Inr (if k = ''SkipCard'' then SkipCard (Some c)
                  else if k = ''DrawTwoCard'' then DrawTwoCard (Some c)
                  else ReverseCard (Some c))
         | _ \<Rightarrow> Inl IndexError)
      else Inl AttributeError)"

text \<open>
  The saved data: the dictionary that \<^verbatim>\<open>save_game\<close> hands to \<^verbatim>\<open>json.dumps\<close> and that
  \<^verbatim>\<open>json.loads\<close> hands back, which keeps the keys, their order and the values. A
  dictionary is an association list with distinct keys; an assignment to a key replaces
  the value in place or appends the key.
\<close>

datatype json = JInt int | JBool bool | JStrings "string list" | JDict "(string \<times> json) list"

text \<open>\<^verbatim>\<open>save_game\<close> (lines 421-436).\<close>

definition save_game :: "game \<Rightarrow> (string \<times> json) list" where
  "save_game g =
     foldl (\<lambda>game_data p.
              AList.update (name p)
                (JDict [(''human'', JBool (human p)),
                        (''cards'', JStrings (map (\<lambda>a. repr (heap g ! a)) (hand p)))])
                game_data)
       [(''deck'', JStrings (map (\<lambda>a. repr (heap g ! a)) (deck g))),
        (''pile'', JStrings (map (\<lambda>a. repr (heap g ! a)) (pile g))),
        (''turn'', JInt (turn g)),
        (''spin'', JInt (spin g)),
        (''jump_in'', JBool (jump_in g)),
        (''stacking'', JBool (stacking g)),
        (''seven_zero'', JBool (seven_zero g))]
       (player_list g)"

text \<open>
  \<^verbatim>\<open>UnoGame.__init__\<close> with \<^verbatim>\<open>new_game=False\<close> (lines 375-397). Every string becomes a
  new card object. A value of the wrong JSON type is answered with TypeError.
\<close>

fun load_cards :: "string list \<Rightarrow> card list \<Rightarrow> error + (nat list \<times> card list)" where
  "load_cards [] h = Inr ([], h)"
| "load_cards (s # ss) h =
     (case from_string s of
        Inl e \<Rightarrow> Inl e
      | Inr c \<Rightarrow>
          (case load_cards ss (h @ [c]) of
             Inl e \<Rightarrow> Inl e
           | Inr (as, h') \<Rightarrow> Inr (length h # as, h')))"

definition get_strings :: "(string \<times> json) list \<Rightarrow> string \<Rightarrow> error + string list" where
  "get_strings d k =
     (case map_of d k of None \<Rightarrow> Inr [] | Some (JStrings xs) \<Rightarrow> Inr xs | Some _ \<Rightarrow> Inl TypeError)"

definition get_bool :: "(string \<times> json) list \<Rightarrow> string \<Rightarrow> bool \<Rightarrow> error + bool" where
  "get_bool d k dflt =
     (case map_of d k of None \<Rightarrow> Inr dflt | Some (JBool b) \<Rightarrow> Inr b | Some _ \<Rightarrow> Inl TypeError)"

definition get_int :: "(string \<times> json) list \<Rightarrow> string \<Rightarrow> int \<Rightarrow> error + int" where
  "get_int d k dflt =
     (case map_of d k of None \<Rightarrow> Inr dflt | Some (JInt i) \<Rightarrow> Inr i | Some _ \<Rightarrow> Inl TypeError)"

fun load_players ::
  "(string \<times> json) list \<Rightarrow> card list \<Rightarrow> error + (player list \<times> card list)" where
  "load_players [] h = Inr ([], h)"
| "load_players ((entry, data) # rest) h =
     (if sublist ''Player'' entry then
        (case data of
           JDict d \<Rightarrow>
             (case get_bool d ''human'' True of
                Inl e \<Rightarrow> Inl e
              | Inr hum \<Rightarrow>
                  (case get_strings d ''cards'' of
                     Inl e \<Rightarrow> Inl e
                   | Inr strs \<Rightarrow>
                       (case load_cards strs h of
                          Inl e \<Rightarrow> Inl e
                        | Inr (cards, h1) \<Rightarrow>
                            (case load_players rest h1 of
                               Inl e \<Rightarrow> Inl e
                             | Inr (ps, h2) \<Rightarrow>
                                 Inr (\<lparr>name = entry, human = hum, hand = cards\<rparr> # ps, h2)))))
         | _ \<Rightarrow> Inl AttributeError)
      else load_players rest h)"

definition load_game :: "(string \<times> json) list \<Rightarrow> nat list \<Rightarrow> string list \<Rightarrow> error + game" where
  "load_game all_data picks lines =
     (case load_players all_data [] of
        Inl e \<Rightarrow> Inl e
      | Inr (players, h1) \<Rightarrow>
     (case get_strings all_data ''deck'' of
        Inl e \<Rightarrow> Inl e
      | Inr deck_strs \<Rightarrow>
     (case load_cards deck_strs h1 of
        Inl e \<Rightarrow> Inl e
      | Inr (deck_cards, h2) \<Rightarrow>
     (case get_strings all_data ''pile'' of
        Inl e \<Rightarrow> Inl e
      | Inr pile_strs \<Rightarrow>
     (case load_cards pile_strs h2 of
        Inl e \<Rightarrow> Inl e
      | Inr (pile_cards, h3) \<Rightarrow>
     (case get_int all_data ''turn'' 1 of
        Inl e \<Rightarrow> Inl e
      | Inr t \<Rightarrow>
     (case get_int all_data ''spin'' 1 of
        Inl e \<Rightarrow> Inl e
      | Inr sp \<Rightarrow>
     (case get_bool all_data ''jump_in'' False of
        Inl e \<Rightarrow> Inl e
      | Inr ji \<Rightarrow>
     (case get_bool all_data ''stacking'' False of
        Inl e \<Rightarrow> Inl e
      | Inr st \<Rightarrow>
     (case get_bool all_data ''seven_zero'' False of
        Inl e \<Rightarrow> Inl e
      | Inr sz \<Rightarrow>
          Inr \<lparr>heap = h3, player_list = players, deck = deck_cards, pile = pile_cards,
               turn = t, spin = sp, jump_in = ji, stacking = st, seven_zero = sz,
               rnd = picks, inp = lines, offers = []\<rparr>))))))))))"

text \<open>
  What a state holds, read through the references: the players with the cards of their
  hands, the cards of the deck and of the pile, the turn, the spin and the three rules.
  Two states are deeply equal when their views are equal. \<open>view_through f\<close> is the view
  with \<open>f\<close> applied to every card.
\<close>

definition view_through ::
  "(card \<Rightarrow> card) \<Rightarrow> game \<Rightarrow>
     (string \<times> bool \<times> card list) list \<times> card list \<times> card list \<times> int \<times> int \<times> bool \<times> bool \<times> bool" where
  "view_through f g =
     (map (\<lambda>p. (name p, human p, map (\<lambda>a. f (heap g ! a)) (hand p))) (player_list g),
      map (\<lambda>a. f (heap g ! a)) (deck g),
      map (\<lambda>a. f (heap g ! a)) (pile g),
      turn g, spin g, jump_in g, stacking g, seven_zero g)"

definition view ::
  "game \<Rightarrow>
     (string \<times> bool \<times> card list) list \<times> card list \<times> card list \<times> int \<times> int \<times> bool \<times> bool \<times> bool" where
  "view g = view_through (\<lambda>c. c) g"

text \<open>A card as \<^verbatim>\<open>from_string\<close> rebuilds it: a wild card comes back without its colour.\<close>

fun uncoloured :: "card \<Rightarrow> card" where
  "uncoloured (WildCard _) = WildCard None"
| "uncoloured (DrawFourCard _) = DrawFourCard None"
| "uncoloured c = c"

text \<open>
  The cards whose colour survives \<^verbatim>\<open>repr\<close> and \<^verbatim>\<open>split\<close>: a card of the four coloured
  classes must have a colour, and the colour must not contain the separator.
\<close>

definition plain_colour :: "card \<Rightarrow> bool" where
  "plain_colour c =
     (is_WildCard c \<or> is_DrawFourCard c \<or>
      (case colour c of None \<Rightarrow> False | Some s \<Rightarrow> CHR '':'' \<notin> set s))"

section \<open>Example states and notions used in the statements\<close>

text \<open>
  Two players, every rule enabled; the first player holds a single card and the top of
  the pile is a red 3.
\<close>

definition ex_last :: game where
  "ex_last =
     \<lparr>heap = [WildCard None, NumberedCard (Some ''Red'') 3, SkipCard (Some ''Red'')],
      player_list = [\<lparr>name = ''Player 1'', human = True, hand = [0]\<rparr>,
                     \<lparr>name = ''Player 2'', human = False, hand = [2]\<rparr>],
      deck = [], pile = [1], turn = 1, spin = 1,
      jump_in = True, stacking = True, seven_zero = True,
      rnd = [], inp = [], offers = []\<rparr>"

text \<open>A heap whose cards 0 to 3 form a hand with two uncoloured DrawFourCards.\<close>

definition ex_hand_heap :: "card list" where
  "ex_hand_heap =
     [DrawFourCard None, NumberedCard (Some ''Red'') 3, DrawFourCard None, SkipCard (Some ''Blue'')]"

text \<open>Four players with one card each, the 7-0 rule enabled, a red 0 on the pile.\<close>

definition ex_rotate :: game where
  "ex_rotate =
     \<lparr>heap = [NumberedCard (Some ''Red'') 0, SkipCard (Some ''Red''), SkipCard (Some ''Blue''),
              ReverseCard (Some ''Red''), WildCard None],
      player_list = [\<lparr>name = ''Player 1'', human = True, hand = [1]\<rparr>,
                     \<lparr>name = ''Player 2'', human = False, hand = [2]\<rparr>,
                     \<lparr>name = ''Player 3'', human = False, hand = [3]\<rparr>,
                     \<lparr>name = ''Player 4'', human = False, hand = [4]\<rparr>],
      deck = [], pile = [0], turn = 1, spin = 1,
      jump_in = False, stacking = False, seven_zero = True,
      rnd = [], inp = [], offers = []\<rparr>"

text \<open>
  A deck of one card over a pile of one card (\<open>ex_thin\<close>, and \<open>ex_thin_drawn\<close> after
  the draw), and a deck of one card over a pile of three (\<open>ex_refill\<close>).
\<close>

definition ex_thin :: game where
  "ex_thin =
     \<lparr>heap = [NumberedCard (Some ''Red'') 1, NumberedCard (Some ''Blue'') 2],
      player_list = [\<lparr>name = ''Player 1'', human = True, hand = []\<rparr>,
                     \<lparr>name = ''Player 2'', human = False, hand = []\<rparr>],
      deck = [0], pile = [1], turn = 1, spin = 1,
      jump_in = False, stacking = False, seven_zero = False,
      rnd = [0, 0], inp = [], offers = []\<rparr>"

definition ex_thin_drawn :: game where
  "ex_thin_drawn =
     ex_thin\<lparr>rnd := [0], deck := [], pile := [1],
             player_list := [\<lparr>name = ''Player 1'', human = True, hand = [0]\<rparr>,
                             \<lparr>name = ''Player 2'', human = False, hand = []\<rparr>]\<rparr>"

definition ex_refill :: game where
  "ex_refill =
     \<lparr>heap = [NumberedCard (Some ''Red'') 1, NumberedCard (Some ''Blue'') 2,
              SkipCard (Some ''Blue''), NumberedCard (Some ''Green'') 2],
      player_list = [\<lparr>name = ''Player 1'', human = True, hand = []\<rparr>,
                     \<lparr>name = ''Player 2'', human = False, hand = []\<rparr>],
      deck = [0], pile = [1, 2, 3], turn = 1, spin = 1,
      jump_in = False, stacking = False, seven_zero = False,
      rnd = [5, 7], inp = [], offers = []\<rparr>"

text \<open>
  Stacking enabled, two players. The top of the pile is a red DrawTwoCard; the first
  player holds a blue DrawTwoCard (card 1) and the second player holds no DrawTwoCard.
\<close>

definition ex_stack :: game where
  "ex_stack =
     \<lparr>heap = [DrawTwoCard (Some ''Red''), DrawTwoCard (Some ''Blue''), NumberedCard (Some ''Red'') 5,
              NumberedCard (Some ''Green'') 1, NumberedCard (Some ''Red'') 3,
              NumberedCard (Some ''Green'') 2, NumberedCard (Some ''Green'') 3,
              NumberedCard (Some ''Green'') 4, NumberedCard (Some ''Green'') 5,
              NumberedCard (Some ''Green'') 6, NumberedCard (Some ''Green'') 7],
      player_list = [\<lparr>name = ''Player 1'', human = True, hand = [1, 2]\<rparr>,
                     \<lparr>name = ''Player 2'', human = False, hand = [3]\<rparr>],
      deck = [5, 6, 7, 8, 9, 10], pile = [4, 0], turn = 1, spin = 1,
      jump_in = False, stacking = True, seven_zero = False,
      rnd = [0, 0, 0, 0], inp = [], offers = []\<rparr>"

text \<open>
  The first player holds a red 5 under a blue 7 and has nothing to play; the first card
  of the deck is a blue 9.
\<close>

definition ex_draw :: game where
  "ex_draw =
     \<lparr>heap = [NumberedCard (Some ''Red'') 5, NumberedCard (Some ''Blue'') 7,
              NumberedCard (Some ''Blue'') 9, NumberedCard (Some ''Green'') 1,
              NumberedCard (Some ''Green'') 2],
      player_list = [\<lparr>name = ''Player 1'', human = True, hand = [0]\<rparr>,
                     \<lparr>name = ''Player 2'', human = False, hand = [3]\<rparr>],
      deck = [2, 4], pile = [1], turn = 1, spin = 1,
      jump_in = False, stacking = False, seven_zero = False,
      rnd = [0], inp = [], offers = []\<rparr>"

text \<open>
  The decisions that the loops of lines 478-488 request from player \<open>p\<close> for the
  played card \<open>crd\<close> as long as every answer is a refusal: one per card of the hand
  equal to the played card.
\<close>

definition declined_offers :: "game \<Rightarrow> nat \<Rightarrow> nat \<Rightarrow> nat list" where
  "declined_offers g crd p =
     (if Some p = player_from_turn g (next_turn g) \<and> is_SkipCard (heap g ! crd) then []
      else if is_WildCard (heap g ! crd) \<or> is_DrawFourCard (heap g ! crd) then []
      else replicate (length (filter (\<lambda>c. heap g ! c = heap g ! crd) (hand (player_list g ! p)))) p)"

text \<open>
  The eligibility for the jump-in offer in the words of claim C2 (for comparison with the
  code): a player holding a card equal to the played card is eligible unless they are
  the player about to take the next turn, who is eligible only when the played card is a
  SkipCard; nobody is eligible for a WildCard or a DrawFourCard.
\<close>

definition claimed_jump_in_eligible :: "game \<Rightarrow> nat \<Rightarrow> nat \<Rightarrow> bool" where
  "claimed_jump_in_eligible g crd p =
     (\<not> is_WildCard (heap g ! crd) \<and> \<not> is_DrawFourCard (heap g ! crd) \<and>
      list_ex (\<lambda>c. heap g ! c = heap g ! crd) (hand (player_list g ! p)) \<and>
      (player_from_turn g (next_turn g) \<noteq> Some p \<or> is_SkipCard (heap g ! crd)))"

text \<open>
  Three players at the moment the jump-in window opens: the first player has just played
  card 0, and the second player, who is about to take the next turn, holds an equal card
  (card 2) and will decline. The played card is a red 5 in \<open>ex_window\<close> and a red
  SkipCard in \<open>ex_window_skip\<close>.
\<close>

definition ex_window :: game where
  "ex_window =
     \<lparr>heap = [NumberedCard (Some ''Red'') 5, NumberedCard (Some ''Blue'') 2,
              NumberedCard (Some ''Red'') 5, NumberedCard (Some ''Green'') 1,
              NumberedCard (Some ''Green'') 3, NumberedCard (Some ''Red'') 9],
      player_list = [\<lparr>name = ''Player 1'', human = True, hand = [1]\<rparr>,
                     \<lparr>name = ''Player 2'', human = False, hand = [2, 3]\<rparr>,
                     \<lparr>name = ''Player 3'', human = False, hand = [4]\<rparr>],
      deck = [], pile = [5, 0], turn = 1, spin = 1,
      jump_in = True, stacking = False, seven_zero = False,
      rnd = [1], inp = [], offers = []\<rparr>"

definition ex_window_skip :: game where
  "ex_window_skip =
     \<lparr>heap = [SkipCard (Some ''Red''), NumberedCard (Some ''Blue'') 2,
              SkipCard (Some ''Red''), NumberedCard (Some ''Green'') 1,
              NumberedCard (Some ''Green'') 3, NumberedCard (Some ''Red'') 9],
      player_list = [\<lparr>name = ''Player 1'', human = True, hand = [1]\<rparr>,
                     \<lparr>name = ''Player 2'', human = False, hand = [2, 3]\<rparr>,
                     \<lparr>name = ''Player 3'', human = False, hand = [4]\<rparr>],
      deck = [], pile = [5, 0], turn = 1, spin = 1,
      jump_in = True, stacking = False, seven_zero = False,
      rnd = [1], inp = [], offers = []\<rparr>"

text \<open>
  Four players, jump-in enabled. The first player holds a green SkipCard (card 0); the
  third and the fourth player hold equal cards (cards 2 and 4). The picks make the third
  player accept and the fourth decline. \<open>ex_interrupting\<close> is the state in which the
  third player's interrupt starts: card 0 is on the pile and the turn is set to 3.
\<close>

definition ex_interrupt :: game where
  "ex_interrupt =
     \<lparr>heap = [SkipCard (Some ''Green''), NumberedCard (Some ''Red'') 1,
              SkipCard (Some ''Green''), NumberedCard (Some ''Red'') 2,
              SkipCard (Some ''Green''), NumberedCard (Some ''Red'') 3,
              NumberedCard (Some ''Green'') 9, NumberedCard (Some ''Green'') 4],
      player_list = [\<lparr>name = ''Player 1'', human = True, hand = [0, 1]\<rparr>,
                     \<lparr>name = ''Player 2'', human = False, hand = [6]\<rparr>,
                     \<lparr>name = ''Player 3'', human = False, hand = [2, 3]\<rparr>,
                     \<lparr>name = ''Player 4'', human = False, hand = [4, 5]\<rparr>],
      deck = [], pile = [7], turn = 1, spin = 1,
      jump_in = True, stacking = False, seven_zero = False,
      rnd = [0, 1], inp = [], offers = []\<rparr>"

definition ex_interrupting :: game where
  "ex_interrupting =
     ex_interrupt\<lparr>player_list := [\<lparr>name = ''Player 1'', human = True, hand = [1]\<rparr>,
                     \<lparr>name = ''Player 2'', human = False, hand = [6]\<rparr>,
                     \<lparr>name = ''Player 3'', human = False, hand = [2, 3]\<rparr>,
                     \<lparr>name = ''Player 4'', human = False, hand = [4, 5]\<rparr>],
                  pile := [7, 0], turn := 3, rnd := [1], offers := [2]\<rparr>"

text \<open>
  Fourteen picks for the deal of a new game of two players: the first pick is position
  27 of the new deck, the WildCard created in the second round of the loop of
  \<^verbatim>\<open>init_cards\<close>; every later pick is the first card of the deck.
\<close>

definition ex_picks :: "nat list" where
  "ex_picks = [27, 0, 0, 0, 0, 0, 0, 0, 0, 0, 0, 0, 0, 0]"

text \<open>
  A state with a coloured WildCard on top of the pile, as it is after that card was played.
\<close>

definition ex_saved :: game where
  "ex_saved =
     \<lparr>heap = [NumberedCard (Some ''Red'') 5, SkipCard (Some ''Blue''), DrawFourCard None,
              NumberedCard (Some ''Green'') 0, WildCard (Some ''Red'')],
      player_list = [\<lparr>name = ''Player 1'', human = True, hand = [0]\<rparr>,
                     \<lparr>name = ''Player 2'', human = False, hand = [1, 2]\<rparr>],
      deck = [3], pile = [4], turn = 2, spin = - 1,
      jump_in = True, stacking = False, seven_zero = True,
      rnd = [], inp = [], offers = []\<rparr>"

text \<open>The number of cards in the deck, the pile and the hands.\<close>

definition total_cards :: "game \<Rightarrow> nat" where
  "total_cards g =
     length (deck g) + length (pile g) + sum_list (map (\<lambda>p. length (hand p)) (player_list g))"

text \<open>
  Stacking enabled; the pile ends in a run of two DrawFourCards above a red 3, and the
  second player holds no DrawFourCard.
\<close>

definition ex_four :: game where
  "ex_four =
     \<lparr>heap = [DrawFourCard (Some ''Red''), DrawFourCard (Some ''Blue''), NumberedCard (Some ''Red'') 5,
              NumberedCard (Some ''Green'') 1, NumberedCard (Some ''Red'') 3,
              NumberedCard (Some ''Green'') 2, NumberedCard (Some ''Green'') 3,
              NumberedCard (Some ''Green'') 4, NumberedCard (Some ''Green'') 5,
              NumberedCard (Some ''Green'') 6, NumberedCard (Some ''Green'') 7,
              NumberedCard (Some ''Green'') 8, NumberedCard (Some ''Green'') 9,
              NumberedCard (Some ''Blue'') 1],
      player_list = [\<lparr>name = ''Player 1'', human = True, hand = [2]\<rparr>,
                     \<lparr>name = ''Player 2'', human = False, hand = [3]\<rparr>],
      deck = [5, 6, 7, 8, 9, 10, 11, 12, 13], pile = [4, 0, 1], turn = 1, spin = 1,
      jump_in = False, stacking = True, seven_zero = False,
      rnd = [0, 0, 0, 0, 0, 0, 0, 0], inp = [], offers = []\<rparr>"

section \<open>Properties\<close>

subsection \<open>Facts for evaluating the examples\<close>

lemma str_int_digit:
  "str_int 0 = ''0''" "str_int 1 = ''1''" "str_int 2 = ''2''" "str_int 3 = ''3''" "str_int 4 = ''4''"
  "str_int 5 = ''5''" "str_int 6 = ''6''" "str_int 7 = ''7''" "str_int 8 = ''8''" "str_int 9 = ''9''"
  by (simp_all add: str_int_def str_nat.simps digit_char_def)

lemma upt_3: "[0..<3] = [0, 1, 2]" "[0..<4] = [0, 1, 2, 3]"
  by (simp_all add: upt_rec)

subsection \<open>The last card of a hand\<close>

text \<open>
  Claim C10. If \<^verbatim>\<open>player.hand.remove(card)\<close> leaves the hand empty, \<open>play_card\<close> ends
  with SystemExit in the state in which only that hand and the pile have changed: the
  heap (hence every colour), the deck, the other hands, the turn, the spin, the picks, the
  input and the record of jump-in offers are those of the state before the play. No
  effect of the card has run and no jump-in decision was requested.
\<close>

theorem last_card_ends_game:
  assumes "py_remove (heap g) crd (hand (player_list g ! p)) = Some []"
  shows "play_card (Suc fuel) g p crd =
           Inl (SystemExit, g\<lparr>player_list := set_hand (player_list g) p [], pile := pile g @ [crd]\<rparr>)"
  using assms by simp

theorem last_card_ends_game_witness:
  "py_remove (heap ex_last) 0 (hand (player_list ex_last ! 0)) = Some [] \<and>
   play_card (Suc 0) ex_last 0 0 =
     Inl (SystemExit, ex_last\<lparr>player_list := set_hand (player_list ex_last) 0 [], pile := pile ex_last @ [0]\<rparr>)"
proof -
  have h: "py_remove (heap ex_last) 0 (hand (player_list ex_last ! 0)) = Some []"
    by (simp add: ex_last_def)
  show ?thesis using h last_card_ends_game [OF h, of 0] by simp
qed

subsection \<open>The legality filter and the DrawFourCard\<close>

lemma first_pass_DrawFour:
  assumes "is_DrawFourCard (h ! a)"
  shows "first_pass current stack h a = (if stack \<and> is_DrawFourCard current then [a] else [])"
  using assms by (cases "h ! a") (auto simp: first_pass_def)

lemma first_pass_subset: "set (first_pass current stack h a) \<subseteq> {a}"
  by (auto simp: first_pass_def Let_def split: if_splits)

lemma second_pass_nonempty: "playable \<noteq> [] \<Longrightarrow> second_pass h cards playable = playable"
  unfolding second_pass_def by (induction cards) auto

lemma second_pass_empty:
  "second_pass h cards [] = (case filter (\<lambda>a. is_DrawFourCard (h ! a)) cards of [] \<Rightarrow> [] | d # _ \<Rightarrow> [d])"
proof (induction cards)
  case Nil
  then show ?case by (simp add: second_pass_def)
next
  case (Cons a cards)
  show ?case
  proof (cases "is_DrawFourCard (h ! a)")
    case True
    have "second_pass h (a # cards) [] = second_pass h cards [a]"
      using True by (simp add: second_pass_def)
    then show ?thesis using True by (simp add: second_pass_nonempty)
  next
    case False
    have "second_pass h (a # cards) [] = second_pass h cards []"
      using False by (simp add: second_pass_def)
    then show ?thesis using False Cons.IH by simp
  qed
qed

lemma first_pass_no_DrawFour:
  assumes "\<not> (stack \<and> is_DrawFourCard current)" "b \<in> set (first_pass current stack h a)"
  shows "b = a \<and> \<not> is_DrawFourCard (h ! a)"
proof
  show "b = a" using assms(2) first_pass_subset [of current stack h a] by blast
  show "\<not> is_DrawFourCard (h ! a)"
  proof
    assume "is_DrawFourCard (h ! a)"
    then have "first_pass current stack h a = []"
      using assms(1) by (simp add: first_pass_DrawFour)
    then show False using assms(2) by simp
  qed
qed

lemma in_first_loop:
  "b \<in> set (concat (map (first_pass current stack h) cards)) \<longleftrightarrow>
     b \<in> set cards \<and> b \<in> set (first_pass current stack h b)"
proof
  assume "b \<in> set (concat (map (first_pass current stack h) cards))"
  then obtain x where x: "x \<in> set cards" "b \<in> set (first_pass current stack h x)"
    by auto
  then have "b = x" using first_pass_subset [of current stack h x] by blast
  then show "b \<in> set cards \<and> b \<in> set (first_pass current stack h b)" using x by simp
next
  assume "b \<in> set cards \<and> b \<in> set (first_pass current stack h b)"
  then show "b \<in> set (concat (map (first_pass current stack h) cards))" by auto
qed

lemma first_loop_no_DrawFour:
  assumes "\<not> (stack \<and> is_DrawFourCard current)"
    "b \<in> set (concat (map (first_pass current stack h) cards))"
  shows "\<not> is_DrawFourCard (h ! b)"
proof -
  have "b \<in> set (first_pass current stack h b)"
    using assms(2) unfolding in_first_loop by blast
  then show ?thesis using first_pass_no_DrawFour [OF assms(1)] by blast
qed

lemma first_loop_DrawFour:
  assumes "stack \<and> is_DrawFourCard current" "a \<in> set cards" "is_DrawFourCard (h ! a)"
  shows "a \<in> set (concat (map (first_pass current stack h) cards))"
proof -
  have "a \<in> set (first_pass current stack h a)"
    using assms by (simp add: first_pass_DrawFour)
  then show ?thesis using assms(2) unfolding in_first_loop by blast
qed

text \<open>
  Claim C5. Let a hand hold a DrawFourCard \<open>a\<close>, all DrawFourCards of the hand being
  equal cards (the loop of lines 541-543 has just removed their colours when
  \<^verbatim>\<open>playable_cards\<close> is called). Then \<open>a\<close> is in the playable list, in the sense of
  Python's \<^verbatim>\<open>in\<close>, if and only if stacking is enabled and the top card is a
  DrawFourCard, or no card of the hand other than a DrawFourCard is in the playable list.
\<close>

theorem DrawFour_playable_iff:
  assumes a_in: "a \<in> set cards" and a_df: "is_DrawFourCard (h ! a)"
    and same: "list_all (\<lambda>b. is_DrawFourCard (h ! b) \<longrightarrow> h ! b = h ! a) cards"
  shows "py_in h a (playable_from h cards current stack) \<longleftrightarrow>
           (stack \<and> is_DrawFourCard current) \<or>
           \<not> list_ex (\<lambda>b. \<not> is_DrawFourCard (h ! b) \<and> py_in h b (playable_from h cards current stack)) cards"
proof -
  define F where "F = concat (map (first_pass current stack h) cards)"
  have pf: "playable_from h cards current stack = second_pass h cards F"
    by (simp add: playable_from_def F_def)
  show ?thesis
  proof (cases "stack \<and> is_DrawFourCard current")
    case True
    have aF: "a \<in> set F" unfolding F_def using first_loop_DrawFour [OF True a_in a_df] .
    then have "F \<noteq> []" by (metis length_pos_if_in_set length_greater_0_conv)
    then have "playable_from h cards current stack = F"
      by (simp add: pf second_pass_nonempty)
    moreover have "py_in h a F" using aF by (auto simp: py_in_def list_ex_iff)
    ultimately show ?thesis using True by simp
  next
    case False
    have nodf: "\<not> is_DrawFourCard (h ! b)" if "b \<in> set F" for b
      using that False first_loop_no_DrawFour unfolding F_def by blast
    have mem: "b \<in> set cards" if "b \<in> set F" for b
      using that unfolding F_def in_first_loop by blast
    show ?thesis
    proof (cases "F = []")
      case True
      obtain d ds where d: "filter (\<lambda>a. is_DrawFourCard (h ! a)) cards = d # ds"
        using a_in a_df by (cases "filter (\<lambda>a. is_DrawFourCard (h ! a)) cards") (auto simp: filter_empty_conv)
      then have "d \<in> set (filter (\<lambda>a. is_DrawFourCard (h ! a)) cards)" by simp
      then have d_in: "d \<in> set cards" and d_df: "is_DrawFourCard (h ! d)" by auto
      have P: "playable_from h cards current stack = [d]"
        using d by (simp add: pf True second_pass_empty)
      have "h ! d = h ! a" using same d_in d_df by (auto simp: list_all_iff)
      then have L: "py_in h a [d]" by (simp add: py_in_def)
      have "\<not> is_DrawFourCard (h ! b) \<Longrightarrow> \<not> py_in h b [d]" for b
        using d_df by (auto simp: py_in_def)
      then have "\<not> list_ex (\<lambda>b. \<not> is_DrawFourCard (h ! b) \<and> py_in h b [d]) cards"
        unfolding list_ex_iff by blast
      with L show ?thesis unfolding P by blast
    next
      case Fne: False
      have P: "playable_from h cards current stack = F"
        using Fne by (simp add: pf second_pass_nonempty)
      have "\<not> (y = a \<or> h ! y = h ! a)" if "y \<in> set F" for y
        using nodf [OF that] a_df by auto
      then have L: "\<not> py_in h a F"
        unfolding py_in_def list_ex_iff by blast
      obtain y where y: "y \<in> set F" using Fne by (cases F) auto
      have "py_in h y F" using y unfolding py_in_def list_ex_iff by blast
      then have "list_ex (\<lambda>b. \<not> is_DrawFourCard (h ! b) \<and> py_in h b F) cards"
        unfolding list_ex_iff using mem [OF y] nodf [OF y] by blast
      with L False show ?thesis unfolding P by blast
    qed
  qed
qed

theorem DrawFour_playable_iff_witness:
  "2 \<in> set [0, 1, 2, 3::nat] \<and> is_DrawFourCard (ex_hand_heap ! 2) \<and>
   list_all (\<lambda>b. is_DrawFourCard (ex_hand_heap ! b) \<longrightarrow> ex_hand_heap ! b = ex_hand_heap ! 2) [0, 1, 2, 3] \<and>
   (py_in ex_hand_heap 2 (playable_from ex_hand_heap [0, 1, 2, 3] (NumberedCard (Some ''Green'') 5) False) \<longleftrightarrow>
      (False \<and> is_DrawFourCard (NumberedCard (Some ''Green'') 5)) \<or>
      \<not> list_ex (\<lambda>b. \<not> is_DrawFourCard (ex_hand_heap ! b) \<and>
            py_in ex_hand_heap b (playable_from ex_hand_heap [0, 1, 2, 3] (NumberedCard (Some ''Green'') 5) False))
          [0, 1, 2, 3])"
proof -
  have 1: "2 \<in> set [0, 1, 2, 3::nat]" by simp
  have 2: "is_DrawFourCard (ex_hand_heap ! 2)" by (simp add: ex_hand_heap_def)
  have 3: "list_all (\<lambda>b. is_DrawFourCard (ex_hand_heap ! b) \<longrightarrow> ex_hand_heap ! b = ex_hand_heap ! 2) [0, 1, 2, 3]"
    by (simp add: ex_hand_heap_def)
  show ?thesis
    by (intro conjI, rule 1, rule 2, rule 3, rule DrawFour_playable_iff [OF 1 2 3])
qed

text \<open>
  The hypothesis on the DrawFourCards holds whenever \<^verbatim>\<open>run_game\<close> calls the filter: after
  the loop of lines 541-543 every DrawFourCard of the hand is the card without a colour.
\<close>

lemma set_colour_class:
  "is_DrawFourCard (set_colour c v) = is_DrawFourCard c"
  "is_WildCard (set_colour c v) = is_WildCard c"
  by (cases c; simp)+

lemma set_colour_None_twice: "set_colour (set_colour c None) None = set_colour c None"
  by (cases c) simp_all

lemma reset_colours_nth:
  assumes "b < length h"
  shows "reset_colours h cards ! b =
           (if b \<in> set cards \<and> (is_WildCard (h ! b) \<or> is_DrawFourCard (h ! b))
            then set_colour (h ! b) None else h ! b)"
  using assms
proof (induction cards arbitrary: h)
  case Nil
  then show ?case by (simp add: reset_colours_def)
next
  case (Cons c cards)
  define h1 where "h1 = (if is_WildCard (h ! c) \<or> is_DrawFourCard (h ! c)
                         then h[c := set_colour (h ! c) None] else h)"
  have step: "reset_colours h (c # cards) = reset_colours h1 cards"
    by (simp add: reset_colours_def h1_def)
  have len: "b < length h1" using Cons.prems by (simp add: h1_def)
  have h1b: "h1 ! b = (if b = c \<and> (is_WildCard (h ! b) \<or> is_DrawFourCard (h ! b))
                       then set_colour (h ! b) None else h ! b)"
    using Cons.prems by (auto simp: h1_def nth_list_update)
  show ?case unfolding step Cons.IH [OF len] h1b
    by (auto simp: set_colour_class set_colour_None_twice)
qed

lemma reset_colours_uniform:
  assumes "list_all (\<lambda>b. b < length h) cards" and "a \<in> set cards"
    and "is_DrawFourCard (reset_colours h cards ! a)"
  shows "list_all (\<lambda>b. is_DrawFourCard (reset_colours h cards ! b) \<longrightarrow>
                        reset_colours h cards ! b = reset_colours h cards ! a) cards"
proof -
  have df: "reset_colours h cards ! b = DrawFourCard None"
    if "b \<in> set cards" "is_DrawFourCard (reset_colours h cards ! b)" for b
  proof -
    have lb: "b < length h" using that(1) assms(1) by (simp add: list_all_iff)
    have "is_DrawFourCard (h ! b)"
      using that(2) unfolding reset_colours_nth [OF lb] by (auto simp: set_colour_class split: if_splits)
    then show ?thesis
      unfolding reset_colours_nth [OF lb] using that(1) by (cases "h ! b") simp_all
  qed
  have a: "reset_colours h cards ! a = DrawFourCard None" using df assms(2,3) by blast
  show ?thesis unfolding list_all_iff a using df by blast
qed

subsection \<open>The rotation of the hands\<close>

lemma set_hand_length: "length (set_hand ps i cs) = length ps"
  by (simp add: set_hand_def)

lemma set_hand_nth:
  "j < length ps \<Longrightarrow> set_hand ps i cs ! j = (if j = i then (ps ! i)\<lparr>hand := cs\<rparr> else ps ! j)"
  by (simp add: set_hand_def)

lemma rotate_forward_loop:
  assumes "k < length ps"
  shows "length (foldl (\<lambda>qs i. set_hand qs (i + 1) (H ! i)) ps [0..<k]) = length ps \<and>
         (\<forall>j < length ps. foldl (\<lambda>qs i. set_hand qs (i + 1) (H ! i)) ps [0..<k] ! j =
            (if 1 \<le> j \<and> j \<le> k then (ps ! j)\<lparr>hand := H ! (j - 1)\<rparr> else ps ! j))"
  using assms
proof (induction k)
  case 0
  then show ?case by simp
next
  case (Suc k)
  then have IH: "length (foldl (\<lambda>qs i. set_hand qs (i + 1) (H ! i)) ps [0..<k]) = length ps"
    "\<And>j. j < length ps \<Longrightarrow> foldl (\<lambda>qs i. set_hand qs (i + 1) (H ! i)) ps [0..<k] ! j =
            (if 1 \<le> j \<and> j \<le> k then (ps ! j)\<lparr>hand := H ! (j - 1)\<rparr> else ps ! j)"
    by auto
  show ?case using Suc.prems IH
    by (auto simp: set_hand_nth set_hand_length)
qed

lemma rotate_backward_loop:
  assumes "k < length ps"
  shows "length (foldl (\<lambda>qs i. set_hand qs i (H ! (i + 1))) ps [0..<k]) = length ps \<and>
         (\<forall>j < length ps. foldl (\<lambda>qs i. set_hand qs i (H ! (i + 1))) ps [0..<k] ! j =
            (if j < k then (ps ! j)\<lparr>hand := H ! (j + 1)\<rparr> else ps ! j))"
  using assms
proof (induction k)
  case 0
  then show ?case by simp
next
  case (Suc k)
  then have IH: "length (foldl (\<lambda>qs i. set_hand qs i (H ! (i + 1))) ps [0..<k]) = length ps"
    "\<And>j. j < length ps \<Longrightarrow> foldl (\<lambda>qs i. set_hand qs i (H ! (i + 1))) ps [0..<k] ! j =
            (if j < k then (ps ! j)\<lparr>hand := H ! (j + 1)\<rparr> else ps ! j)"
    by auto
  show ?case using Suc.prems IH
    by (auto simp: set_hand_nth set_hand_length)
qed

lemma rotate_hands_forward:
  assumes "spin g = 1" "i < length (player_list g)"
  shows "\<exists>g'. rotate_hands g = Inr g' \<and> length (player_list g') = length (player_list g) \<and>
           hand (player_list g' ! i) =
             hand (player_list g ! ((i + length (player_list g) - 1) mod length (player_list g)))"
proof -
  define ps where "ps = player_list g"
  define n where "n = length ps"
  define H where "H = map hand ps"
  define qs where "qs = foldl (\<lambda>qs i. set_hand qs (i + 1) (H ! i)) ps [0..<n - 1]"
  have n: "0 < n" "n - 1 < n" "i < n" using assms(2) by (auto simp: n_def ps_def)
  have len: "length qs = n"
    using rotate_forward_loop [of "n - 1" ps H] n by (simp add: qs_def n_def)
  have nth: "qs ! j = (if 1 \<le> j \<and> j \<le> n - 1 then (ps ! j)\<lparr>hand := H ! (j - 1)\<rparr> else ps ! j)"
    if "j < n" for j
    using rotate_forward_loop [of "n - 1" ps H] n that by (simp add: qs_def n_def)
  have lastH: "last H = hand (ps ! (n - 1))"
    using n by (simp add: H_def last_conv_nth n_def)
  have res: "rotate_hands g = Inr (g\<lparr>player_list := set_hand qs 0 (last H)\<rparr>)"
    using n assms(1) by (simp add: rotate_hands_def Let_def qs_def H_def n_def ps_def)
  have "hand (set_hand qs 0 (last H) ! i) = hand (ps ! ((i + n - 1) mod n))"
  proof (cases "i = 0")
    case True
    then show ?thesis using n len lastH by (simp add: set_hand_nth set_hand_length)
  next
    case False
    then have m: "(i + n - 1) mod n = i - 1" using n by (simp add: mod_if)
    have "hand (set_hand qs 0 (last H) ! i) = hand (qs ! i)"
      using False n len by (simp add: set_hand_nth set_hand_length)
    also have "\<dots> = H ! (i - 1)"
    proof -
      have "1 \<le> i \<and> i \<le> n - 1" using False n by arith
      then show ?thesis using n nth [of i] by simp
    qed
    also have "\<dots> = hand (ps ! (i - 1))" using n by (simp add: H_def n_def)
    finally show ?thesis using m by simp
  qed
  then show ?thesis using res len by (simp add: ps_def n_def set_hand_length)
qed

lemma rotate_hands_backward:
  assumes "spin g \<noteq> 1" "i < length (player_list g)"
  shows "\<exists>g'. rotate_hands g = Inr g' \<and> length (player_list g') = length (player_list g) \<and>
           hand (player_list g' ! i) =
             hand (player_list g ! ((i + 1) mod length (player_list g)))"
proof -
  define ps where "ps = player_list g"
  define n where "n = length ps"
  define H where "H = map hand ps"
  define qs where "qs = foldl (\<lambda>qs i. set_hand qs i (H ! (i + 1))) ps [0..<n - 1]"
  have n: "0 < n" "n - 1 < n" "i < n" using assms(2) by (auto simp: n_def ps_def)
  have len: "length qs = n"
    using rotate_backward_loop [of "n - 1" ps H] n by (simp add: qs_def n_def)
  have nth: "qs ! j = (if j < n - 1 then (ps ! j)\<lparr>hand := H ! (j + 1)\<rparr> else ps ! j)"
    if "j < n" for j
    using rotate_backward_loop [of "n - 1" ps H] n that by (simp add: qs_def n_def)
  have hdH: "hd H = hand (ps ! 0)"
    using n by (simp add: H_def hd_conv_nth n_def)
  have res: "rotate_hands g = Inr (g\<lparr>player_list := set_hand qs (n - 1) (hd H)\<rparr>)"
    using n assms(1) by (simp add: rotate_hands_def Let_def qs_def H_def n_def ps_def)
  have "hand (set_hand qs (n - 1) (hd H) ! i) = hand (ps ! ((i + 1) mod n))"
  proof (cases "i = n - 1")
    case True
    then have "(i + 1) mod n = 0" using n by simp
    then show ?thesis using True n len hdH by (simp add: set_hand_nth set_hand_length)
  next
    case False
    then have lt: "i < n - 1" using n by simp
    then have m: "(i + 1) mod n = i + 1" by simp
    have "hand (set_hand qs (n - 1) (hd H) ! i) = hand (qs ! i)"
      using False n len by (simp add: set_hand_nth set_hand_length)
    also have "\<dots> = H ! (i + 1)" using lt n nth [of i] by simp
    also have "\<dots> = hand (ps ! (i + 1))" using lt by (simp add: H_def n_def)
    finally show ?thesis using m by simp
  qed
  then show ?thesis using res len by (simp add: ps_def n_def set_hand_length)
qed

text \<open>
  Claim C8. With the 7-0 rule enabled, the effect of a numbered 0 gives the player at
  position \<open>i\<close> of \<open>n\<close> the hand that the player at position \<open>(i - 1) mod n\<close> held
  before when the spin is 1, and the hand of the player at position \<open>(i + 1) mod n\<close>
  otherwise (in particular when the spin is -1). The spin read is the current one: the
  effect runs before the turn advances.
\<close>

theorem zero_rotates_hands:
  assumes "seven_zero g" and "heap g ! self = NumberedCard c 0"
    and "i < length (player_list g)"
  shows "\<exists>g'. card_play g self = Inr g' \<and>
           length (player_list g') = length (player_list g) \<and>
           hand (player_list g' ! i) =
             (if spin g = 1
              then hand (player_list g ! ((i + length (player_list g) - 1) mod length (player_list g)))
              else hand (player_list g ! ((i + 1) mod length (player_list g))))"
proof (cases "spin g = 1")
  case True
  then show ?thesis using assms rotate_hands_forward [OF True assms(3)]
    by (simp add: card_play_def NumberedCard_play_def Let_def)
next
  case False
  then show ?thesis using assms rotate_hands_backward [OF False assms(3)]
    by (simp add: card_play_def NumberedCard_play_def Let_def)
qed

theorem zero_rotates_hands_witness:
  "seven_zero ex_rotate \<and> heap ex_rotate ! 0 = NumberedCard (Some ''Red'') 0 \<and>
   0 < length (player_list ex_rotate) \<and>
   (\<exists>g'. card_play ex_rotate 0 = Inr g' \<and>
      length (player_list g') = 4 \<and> hand (player_list g' ! 0) = [4])"
proof -
  have 1: "seven_zero ex_rotate" by (simp add: ex_rotate_def)
  have 2: "heap ex_rotate ! 0 = NumberedCard (Some ''Red'') 0" by (simp add: ex_rotate_def)
  have 3: "0 < length (player_list ex_rotate)" by (simp add: ex_rotate_def)
  have 4: "spin ex_rotate = 1" "length (player_list ex_rotate) = 4"
    "hand (player_list ex_rotate ! 3) = [4]" by (simp_all add: ex_rotate_def)
  show ?thesis using zero_rotates_hands [OF 1 2 3] 1 2 3 4 by simp
qed

subsection \<open>Drawing the last card of the deck\<close>

lemma py_remove_head: "py_remove h x (x # xs) = Some xs"
  by simp

lemma reshuffle_all:
  "pile g = cs @ rest \<Longrightarrow>
   reshuffle (length cs) g = Inr (g\<lparr>pile := rest, deck := deck g @ cs\<rparr>)"
proof (induction cs arbitrary: g)
  case Nil
  then show ?case by simp
next
  case (Cons c cs)
  have "reshuffle (length (c # cs)) g = reshuffle (length cs) (g\<lparr>pile := cs @ rest, deck := deck g @ [c]\<rparr>)"
    using Cons.prems by simp
  also have "\<dots> = Inr (g\<lparr>pile := cs @ rest, deck := deck g @ [c]\<rparr>\<lparr>pile := rest, deck := deck (g\<lparr>pile := cs @ rest, deck := deck g @ [c]\<rparr>) @ cs\<rparr>)"
    by (rule Cons.IH) simp
  finally show ?case by simp
qed

lemma py_remove_mem: "x \<in> set xs \<Longrightarrow> \<exists>ys. py_remove h x xs = Some ys"
  by (induction xs) auto

lemma reshuffle_ok:
  assumes "n \<le> length (pile g)"
  shows "\<exists>g'. reshuffle n g = Inr g'"
proof -
  have "pile g = take n (pile g) @ drop n (pile g)" by simp
  then have "reshuffle (length (take n (pile g))) g =
      Inr (g\<lparr>pile := drop n (pile g), deck := deck g @ take n (pile g)\<rparr>)"
    by (rule reshuffle_all)
  then show ?thesis using assms by (simp add: min_absorb2)
qed

lemma deal_card_last:
  assumes "deck g = [d]" "rnd g = r # rs" "pile g = cs @ [t]"
  shows "deal_card g (Some i) =
           Inr (d, g\<lparr>rnd := rs, deck := cs, pile := [t],
                    player_list := set_hand (player_list g) i (hand (player_list g ! i) @ [d])\<rparr>)"
proof -
  have "reshuffle (length cs) (g\<lparr>rnd := rs, deck := [],
           player_list := set_hand (player_list g) i (hand (player_list g ! i) @ [d])\<rparr>) =
        Inr (g\<lparr>rnd := rs, deck := [],
           player_list := set_hand (player_list g) i (hand (player_list g ! i) @ [d])\<rparr>
            \<lparr>pile := [t], deck := [] @ cs\<rparr>)"
    using reshuffle_all [of "g\<lparr>rnd := rs, deck := [],
           player_list := set_hand (player_list g) i (hand (player_list g ! i) @ [d])\<rparr>" cs "[t]"] assms(3)
    by simp
  then show ?thesis using assms
    by (simp add: deal_card_def random_choice_def Let_def)
qed

lemma deal_card_ok:
  assumes "deck g \<noteq> []" "rnd g \<noteq> []"
  shows "\<exists>c g'. deal_card g (Some i) = Inr (c, g')"
proof -
  obtain r rs where r: "rnd g = r # rs" using assms(2) by (cases "rnd g") auto
  define c where "c = deck g ! (r mod length (deck g))"
  have "c \<in> set (deck g)" using assms(1) by (simp add: c_def)
  then obtain deck' where d: "py_remove (heap g) c (deck g) = Some deck'"
    using py_remove_mem by blast
  define g3 where "g3 = g\<lparr>rnd := rs, deck := deck',
      player_list := set_hand (player_list g) i (hand (player_list g ! i) @ [c])\<rparr>"
  obtain g4 where "reshuffle (length (pile g3) - 1) g3 = Inr g4"
    using reshuffle_ok [of "length (pile g3) - 1" g3] by auto
  then show ?thesis using assms(1) r d
    by (auto simp: deal_card_def random_choice_def Let_def c_def g3_def)
qed

text \<open>
  With a pile of one card the reshuffle has nothing to move: the deck stays empty and the
  next draw raises IndexError.
\<close>

theorem reshuffle_single_pile_counterexample:
  "deck ex_thin = [0] \<and> pile ex_thin = [1] \<and>
   deal_card ex_thin (Some 0) = Inr (0, ex_thin_drawn) \<and>
   deck ex_thin_drawn = [] \<and> pile ex_thin_drawn = [1] \<and>
   deal_card ex_thin_drawn (Some 0) = Inl (IndexError, ex_thin_drawn)"
  by (simp add: ex_thin_def ex_thin_drawn_def deal_card_def random_choice_def set_hand_def)

text \<open>
  Claim C7, amended. When a draw takes the last card of the deck and the pile is
  \<open>cs @ [t]\<close>, the deck becomes \<open>cs\<close> (the pile without its last card, in order) and the
  pile \<open>[t]\<close>. The next draw succeeds when \<open>cs\<close> is not empty, that is when the pile
  held at least two cards; when the pile held one card the deck is left empty and the
  next draw raises IndexError.
\<close>

theorem reshuffle_on_empty_deck:
  assumes "deck g = [d]" and "rnd g = r # r' # rs" and "pile g = cs @ [t]"
  shows "\<exists>g'. deal_card g (Some i) = Inr (d, g') \<and> deck g' = cs \<and> pile g' = [t] \<and>
           (if cs = [] then deal_card g' (Some j) = Inl (IndexError, g')
            else (\<exists>c g''. deal_card g' (Some j) = Inr (c, g'')))"
proof -
  define g' where "g' = g\<lparr>rnd := r' # rs, deck := cs, pile := [t],
      player_list := set_hand (player_list g) i (hand (player_list g ! i) @ [d])\<rparr>"
  have 1: "deal_card g (Some i) = Inr (d, g')"
    unfolding g'_def using assms by (rule deal_card_last)
  have 2: "deck g' = cs" "pile g' = [t]" "rnd g' \<noteq> []" by (simp_all add: g'_def)
  have 3: "deal_card g' (Some j) = Inl (IndexError, g')" if "cs = []"
    using that 2 by (simp add: deal_card_def random_choice_def)
  have 4: "\<exists>c g''. deal_card g' (Some j) = Inr (c, g'')" if "cs \<noteq> []"
    using that 2 deal_card_ok [of g' j] by simp
  show ?thesis using 1 2 3 4 by auto
qed

theorem reshuffle_on_empty_deck_witness:
  "deck ex_refill = [0] \<and> rnd ex_refill = 5 # 7 # [] \<and> pile ex_refill = [1, 2] @ [3] \<and>
   (\<exists>g'. deal_card ex_refill (Some 0) = Inr (0, g') \<and> deck g' = [1, 2] \<and> pile g' = [3] \<and>
      (\<exists>c g''. deal_card g' (Some 1) = Inr (c, g'')))"
proof -
  have 1: "deck ex_refill = [0]" by (simp add: ex_refill_def)
  have 2: "rnd ex_refill = 5 # 7 # []" by (simp add: ex_refill_def)
  have 3: "pile ex_refill = [1, 2] @ [3]" by (simp add: ex_refill_def)
  show ?thesis using reshuffle_on_empty_deck [OF 1 2 3, of 0 1] 1 2 3 by simp
qed

subsection \<open>The forced draw under stacking\<close>

lemma deal_cards_2:
  "deal_cards 2 g p =
     (case deal_card g p of
        Inl e \<Rightarrow> Inl e
      | Inr (_, g') \<Rightarrow> (case deal_card g' p of Inl e \<Rightarrow> Inl e | Inr (_, g'') \<Rightarrow> Inr g''))"
  by (simp add: numeral_2_eq_2 split: sum.splits prod.splits)

text \<open>
  Claim C1 on the code. The first player of \<open>ex_stack\<close> plays the blue DrawTwoCard on the
  red one: the pile then ends in a run of two DrawTwoCards and the count of
  \<^verbatim>\<open>activate\<close> is 2, so the message of line 186 announces 4 cards. The second player,
  who holds no DrawTwoCard, receives 2 cards (cards 5 and 6), not 4: line 187 deals
  \<^verbatim>\<open>range(2)\<close> whatever the count.
\<close>

theorem DrawTwo_stack_draws_two:
  "stack_count is_DrawTwoCard (ex_stack\<lparr>pile := [4, 0, 1]\<rparr>) = 2 \<and>
   (case play_card 1 ex_stack 0 1 of
      Inl _ \<Rightarrow> False
    | Inr g' \<Rightarrow> pile g' = [4, 0, 1] \<and> hand (player_list g' ! 1) = [3, 5, 6] \<and>
               deck g' = [7, 8, 9, 10] \<and> turn g' = 2)"
  by (simp add: ex_stack_def stack_count_def card_play_def DrawTwoCard_play_def
      DrawTwoCard_activate_def deal_cards_2 deal_card_def random_choice_def set_hand_def and_then_def
      player_from_turn_def next_turn_def str_int_digit sublist_code Let_def)

subsection \<open>Drawing with nothing to play\<close>

text \<open>
  Claim C4 on the code. The first player of \<open>ex_draw\<close> has no playable card and draws
  the blue 9, which is legal on the blue 7 (it is the playable list of the new hand). The
  turn nevertheless ends with the blue 9 in the hand and the pile unchanged, for every
  recursion budget: line 560 tests the list computed before the draw, which is empty.
\<close>

theorem drawn_card_not_played:
  "playable_from (heap ex_draw) [0] (heap ex_draw ! 1) False = [] \<and>
   playable_from (heap ex_draw) [0, 2] (heap ex_draw ! 1) False = [2] \<and>
   (case run_game_turn fuel ex_draw of
      Inl _ \<Rightarrow> False
    | Inr g' \<Rightarrow> hand (player_list g' ! 0) = [0, 2] \<and> pile g' = [1] \<and> deck g' = [4] \<and> turn g' = 2)"
  by (simp add: ex_draw_def run_game_turn_def playable_cards_def top_pile_card_def
      playable_from_def first_pass_def second_pass_def reset_colours_def
      deal_card_def random_choice_def set_hand_def and_then_def
      player_from_turn_def next_turn_def str_int_digit sublist_code Let_def)

subsection \<open>Who is offered the jump-in\<close>

lemma get_input_frame:
  assumes "get_input g choices = Inr (s, g')"
  shows "heap g' = heap g \<and> player_list g' = player_list g \<and> turn g' = turn g \<and>
         spin g' = spin g \<and> offers g' = offers g"
  using assms by (auto simp: get_input_def split: sum.splits prod.splits)

lemma random_choice_frame:
  assumes "random_choice g xs = Inr (x, g')"
  shows "heap g' = heap g \<and> player_list g' = player_list g \<and> turn g' = turn g \<and>
         spin g' = spin g \<and> offers g' = offers g"
  using assms by (auto simp: random_choice_def split: if_splits list.splits)

lemma ask_jump_in_frame:
  assumes "ask_jump_in g p = Inr (b, g')"
  shows "heap g' = heap g \<and> player_list g' = player_list g \<and> turn g' = turn g \<and>
         spin g' = spin g \<and> offers g' = offers g @ [p]"
proof (cases "human (player_list g ! p)")
  case True
  then obtain s where 1: "get_input (g\<lparr>offers := offers g @ [p]\<rparr>) BOOL_CHOICES = Inr (s, g')"
    using assms by (auto simp: ask_jump_in_def and_then_def Let_def split: sum.splits)
  from get_input_frame [OF 1] show ?thesis by simp
next
  case False
  then have 1: "random_choice (g\<lparr>offers := offers g @ [p]\<rparr>) [True, False] = Inr (b, g')"
    using assms by (auto simp: ask_jump_in_def Let_def)
  from random_choice_frame [OF 1] show ?thesis by simp
qed

lemma jump_in_hand_declined:
  assumes "jump_in_hand pc crd p cs g = Inr g'" and stop: "\<And>s q c s'. pc s q c \<noteq> Inr s'"
  shows "heap g' = heap g \<and> player_list g' = player_list g \<and> turn g' = turn g \<and>
         spin g' = spin g \<and>
         offers g' = offers g @
           (if is_WildCard (heap g ! crd) \<or> is_DrawFourCard (heap g ! crd) then []
            else replicate (length (filter (\<lambda>c. heap g ! c = heap g ! crd) cs)) p)"
  using assms(1)
proof (induction cs arbitrary: g)
  case Nil
  then show ?case by simp
next
  case (Cons c cs)
  show ?case
  proof (cases "is_WildCard (heap g ! crd) \<or> is_DrawFourCard (heap g ! crd)")
    case True
    then have "jump_in_hand pc crd p cs g = Inr g'" using Cons.prems by simp
    from Cons.IH [OF this] True show ?thesis by simp
  next
    case nw: False
    show ?thesis
    proof (cases "heap g ! c = heap g ! crd")
      case False
      then have "jump_in_hand pc crd p cs g = Inr g'" using Cons.prems nw by simp
      from Cons.IH [OF this] nw False show ?thesis by simp
    next
      case True
      then obtain b g1 where a: "ask_jump_in g p = Inr (b, g1)"
        and r: "(if b then (case turn_of_name (name (player_list g1 ! p)) of
                    Inl e \<Rightarrow> Inl (e, g1)
                  | Inr t \<Rightarrow> pc (g1\<lparr>turn := t\<rparr>) p c)
                 else jump_in_hand pc crd p cs g1) = Inr g'"
        using Cons.prems nw by (auto simp: and_then_def split: sum.splits)
      have nb: "\<not> b"
      proof
        assume b
        then show False using r stop by (auto split: sum.splits)
      qed
      then have rec: "jump_in_hand pc crd p cs g1 = Inr g'" using r by simp
      note f = ask_jump_in_frame [OF a]
      from Cons.IH [OF rec] f nw True show ?thesis
        by (simp add: replicate_app_Cons_same)
    qed
  qed
qed

lemma declined_offers_cong:
  assumes "heap g1 = heap g" "player_list g1 = player_list g" "turn g1 = turn g" "spin g1 = spin g"
  shows "declined_offers g1 crd p = declined_offers g crd p"
proof -
  have "next_turn g1 = next_turn g" unfolding next_turn_def assms ..
  then have "player_from_turn g1 (next_turn g1) = player_from_turn g (next_turn g)"
    unfolding player_from_turn_def assms by simp
  then show ?thesis unfolding declined_offers_def assms by simp
qed

lemma jump_in_players_declined:
  assumes "jump_in_players pc crd ps g = Inr g'" and stop: "\<And>s q c s'. pc s q c \<noteq> Inr s'"
  shows "heap g' = heap g \<and> player_list g' = player_list g \<and> turn g' = turn g \<and>
         spin g' = spin g \<and>
         offers g' = offers g @ concat (map (declined_offers g crd) ps)"
  using assms(1)
proof (induction ps arbitrary: g)
  case Nil
  then show ?case by simp
next
  case (Cons p ps)
  show ?case
  proof (cases "Some p = player_from_turn g (next_turn g) \<and> is_SkipCard (heap g ! crd)")
    case True
    then have "jump_in_players pc crd ps g = Inr g'" using Cons.prems by simp
    from Cons.IH [OF this] True show ?thesis by (simp add: declined_offers_def)
  next
    case False
    then obtain g1 where h: "jump_in_hand pc crd p (hand (player_list g ! p)) g = Inr g1"
      and rec: "jump_in_players pc crd ps g1 = Inr g'"
      using Cons.prems by (auto simp: and_then_def split: sum.splits)
    note f = jump_in_hand_declined [OF h stop]
    from f have hp: "heap g1 = heap g" and pl: "player_list g1 = player_list g"
      and tn: "turn g1 = turn g" and sp: "spin g1 = spin g" by simp_all
    have "declined_offers g crd p =
            (if is_WildCard (heap g ! crd) \<or> is_DrawFourCard (heap g ! crd) then []
             else replicate (length (filter (\<lambda>c. heap g ! c = heap g ! crd) (hand (player_list g ! p)))) p)"
      unfolding declined_offers_def by (rule if_not_P [OF False])
    then have o1: "offers g1 = offers g @ declined_offers g crd p"
      using f by simp
    have c: "declined_offers g1 crd = declined_offers g crd"
      using declined_offers_cong [OF hp pl tn sp] by blast
    from Cons.IH [OF rec] have "offers g' = offers g1 @ concat (map (declined_offers g crd) ps)"
      and "heap g' = heap g1" "player_list g' = player_list g1" "turn g' = turn g1" "spin g' = spin g1"
      unfolding c by simp_all
    then show ?thesis using o1 hp pl tn sp by simp
  qed
qed

lemma set_declined_offers:
  "set (declined_offers g crd p) =
     (if \<not> is_WildCard (heap g ! crd) \<and> \<not> is_DrawFourCard (heap g ! crd) \<and>
         \<not> (is_SkipCard (heap g ! crd) \<and> player_from_turn g (next_turn g) = Some p) \<and>
         list_ex (\<lambda>c. heap g ! c = heap g ! crd) (hand (player_list g ! p))
      then {p} else {})"
  by (auto simp: declined_offers_def list_ex_iff filter_empty_conv)

lemma UN_if_singleton: "(\<Union>p\<in>A. (if P p then {p} else {})) = {p \<in> A. P p}"
  by auto

lemma ex_window_run:
  "jump_in_players (play_card 0) 0 [0..<length (player_list ex_window)] ex_window =
     Inr (ex_window\<lparr>rnd := [], offers := [1]\<rparr>)"
  by (simp add: ex_window_def upt_3 ask_jump_in_def random_choice_def and_then_def
      player_from_turn_def next_turn_def str_int_digit sublist_code Let_def)

text \<open>
  Claim C2 fails as stated. In \<open>ex_window\<close> the played card is a red 5 and the player about
  to take the next turn is asked, although the claim excludes them; in \<open>ex_window_skip\<close>
  the played card is a SkipCard and that player is not asked, although the claim makes
  them eligible. The guard of line 480 skips the next player exactly when the card is a
  SkipCard.
\<close>

theorem next_player_offered_counterexample:
  "jump_in_players (play_card 0) 0 [0..<length (player_list ex_window)] ex_window =
     Inr (ex_window\<lparr>rnd := [], offers := [1]\<rparr>) \<and>
   player_from_turn ex_window (next_turn ex_window) = Some 1 \<and>
   \<not> claimed_jump_in_eligible ex_window 0 1 \<and>
   jump_in_players (play_card 0) 0 [0..<length (player_list ex_window_skip)] ex_window_skip =
     Inr ex_window_skip \<and>
   player_from_turn ex_window_skip (next_turn ex_window_skip) = Some 1 \<and>
   claimed_jump_in_eligible ex_window_skip 0 1"
  by (simp add: ex_window_def ex_window_skip_def upt_3 ask_jump_in_def random_choice_def and_then_def
      claimed_jump_in_eligible_def
      player_from_turn_def next_turn_def str_int_digit sublist_code Let_def)

text \<open>
  Claim C2, amended. \<open>play_card 0\<close> stops at once, so a run of the loop of
  \<^verbatim>\<open>play_jump_in\<close> that ends normally with it is a run in which every player asked has
  declined, whatever the players (human or not) and their answers' sources. In such a
  run the players asked are exactly the players of the table who hold a card equal to
  the played card, the player who played it included, except the player about to take
  the next turn when the played card is a SkipCard; nobody is asked when the played card
  is a WildCard or a DrawFourCard.
\<close>

theorem jump_in_window_offers:
  assumes "jump_in_players (play_card 0) crd [0..<length (player_list g)] g = Inr g'"
  shows "set (offers g') = set (offers g) \<union>
           {p \<in> {0..<length (player_list g)}.
               \<not> is_WildCard (heap g ! crd) \<and> \<not> is_DrawFourCard (heap g ! crd) \<and>
               \<not> (is_SkipCard (heap g ! crd) \<and> player_from_turn g (next_turn g) = Some p) \<and>
               list_ex (\<lambda>c. heap g ! c = heap g ! crd) (hand (player_list g ! p))}"
proof -
  have stop: "\<And>s q c s'. play_card 0 s q c \<noteq> Inr s'" by simp
  from jump_in_players_declined [OF assms stop]
  have "offers g' = offers g @ concat (map (declined_offers g crd) [0..<length (player_list g)])"
    by simp
  then have "set (offers g') =
      set (offers g) \<union> (\<Union>p\<in>{0..<length (player_list g)}. set (declined_offers g crd p))"
    by simp
  then show ?thesis unfolding set_declined_offers UN_if_singleton .
qed

theorem jump_in_window_offers_witness:
  "jump_in_players (play_card 0) 0 [0..<length (player_list ex_window)] ex_window =
     Inr (ex_window\<lparr>rnd := [], offers := [1]\<rparr>) \<and>
   set (offers (ex_window\<lparr>rnd := [], offers := [1]\<rparr>)) = set (offers ex_window) \<union>
           {p \<in> {0..<length (player_list ex_window)}.
               \<not> is_WildCard (heap ex_window ! 0) \<and> \<not> is_DrawFourCard (heap ex_window ! 0) \<and>
               \<not> (is_SkipCard (heap ex_window ! 0) \<and>
                   player_from_turn ex_window (next_turn ex_window) = Some p) \<and>
               list_ex (\<lambda>c. heap ex_window ! c = heap ex_window ! 0) (hand (player_list ex_window ! p))}"
  using ex_window_run jump_in_window_offers [OF ex_window_run] by blast

subsection \<open>An accepted jump-in\<close>

lemma turn_of_name_Player:
  "turn_of_name ''Player 1'' = Inr 1" "turn_of_name ''Player 2'' = Inr 2"
  "turn_of_name ''Player 3'' = Inr 3" "turn_of_name ''Player 4'' = Inr 4"
  by (simp_all add: turn_of_name_def int_str_def char_digit_def)

text \<open>
  Claim C3 on the code. The first player of \<open>ex_interrupt\<close> plays the green SkipCard
  and the third player interrupts with an equal card. The interrupt alone, resolved from
  \<open>ex_interrupting\<close>, leaves the turn at 4. The whole play leaves the turn at 1 and has
  asked the fourth player as well: after the interrupt the outer loop went on to the
  next player, and the \<^verbatim>\<open>else\<close> clause of the outer loop applied the effect of the
  original card on top of the interrupter's.
\<close>

theorem interrupt_then_original_effect:
  "(case play_card (Suc 0) ex_interrupting 2 2 of
      Inl _ \<Rightarrow> False
    | Inr g' \<Rightarrow> turn g' = 4 \<and> pile g' = [7, 0, 2] \<and> offers g' = [2] \<and> rnd g' = [1]) \<and>
   (case play_card (Suc (Suc 0)) ex_interrupt 0 0 of
      Inl _ \<Rightarrow> False
    | Inr g' \<Rightarrow> turn g' = 1 \<and> pile g' = [7, 0, 2] \<and> offers g' = [2, 3] \<and> rnd g' = [])"
  by (simp add: ex_interrupt_def ex_interrupting_def play_jump_in_def upt_3 ask_jump_in_def
      random_choice_def and_then_def set_hand_def card_play_def SkipCard_play_def
      turn_of_name_Player
      player_from_turn_def next_turn_def str_int_digit sublist_code Let_def)

subsection \<open>Card conservation\<close>

text \<open>
  Claim C6 on the code. In the new game dealt with \<open>ex_picks\<close> the number of cards in
  the deck, the pile and the hands is 108, but the card objects are not each in one
  place: \<^verbatim>\<open>random.choice\<close> picked object 27, \<^verbatim>\<open>self.deck.remove(card)\<close> removed object 0
  (the first card of the deck equal to it under \<^verbatim>\<open>__eq__\<close>), and object 27 went to the
  first player's hand. Object 27 is now both in the deck and in that hand, and object 0
  is in no list at all.
\<close>

theorem dealt_card_stays_in_deck:
  "(case new_game 2 1 False False False ex_picks [] of
      Inl _ \<Rightarrow> False
    | Inr g \<Rightarrow>
        heap g ! 0 = WildCard None \<and> heap g ! 27 = WildCard None \<and>
        hand (player_list g ! 0) = [27, 2, 4, 6, 8, 10, 12] \<and>
        hand (player_list g ! 1) = [1, 3, 5, 7, 9, 11, 13] \<and>
        pile g = [] \<and> deck g = [14..<108] \<and>
        27 \<in> set (deck g) \<and> 27 \<in> set (hand (player_list g ! 0)) \<and>
        0 \<notin> set (deck g @ pile g @ hand (player_list g ! 0) @ hand (player_list g ! 1)) \<and>
        length (deck g) + length (pile g) + length (hand (player_list g ! 0)) +
          length (hand (player_list g ! 1)) = 108)"
  by code_simp

subsection \<open>Saving and loading\<close>

lemma digits_table:
  "list_all (\<lambda>d. char_digit (digit_char d) = Some d \<and> digit_char d \<noteq> CHR '':'' \<and>
                 digit_char d \<noteq> CHR ''-'' \<and> digit_char d \<noteq> CHR ''+'') [0..<10]"
  by code_simp

lemma digit_char_digit: "d < 10 \<Longrightarrow> char_digit (digit_char d) = Some d"
  using digits_table unfolding list_all_iff by simp

lemma digit_char_not_sep: "d < 10 \<Longrightarrow> digit_char d \<notin> {CHR '':'', CHR ''-'', CHR ''+''}"
  using digits_table unfolding list_all_iff by simp

lemma parse_digits_snoc:
  "parse_digits acc (xs @ [c]) =
     (case parse_digits acc xs of
        None \<Rightarrow> None
      | Some m \<Rightarrow> (case char_digit c of None \<Rightarrow> None | Some d \<Rightarrow> Some (10 * m + d)))"
  by (induction xs arbitrary: acc) (auto split: option.splits)

lemma str_nat_small: "n < 10 \<Longrightarrow> str_nat n = [digit_char n]"
  by (subst str_nat.simps) simp

lemma str_nat_large:
  "\<not> n < 10 \<Longrightarrow> str_nat n = str_nat (n div 10) @ [digit_char (n mod 10)]"
  by (subst str_nat.simps) simp

lemma parse_str_nat: "parse_digits 0 (str_nat n) = Some n"
proof (induction n rule: str_nat.induct)
  case (1 n)
  show ?case
  proof (cases "n < 10")
    case True
    then show ?thesis by (simp add: str_nat_small digit_char_digit)
  next
    case False
    then have IH: "parse_digits 0 (str_nat (n div 10)) = Some (n div 10)" using 1 by simp
    have "n mod 10 < 10" by simp
    then have d: "char_digit (digit_char (n mod 10)) = Some (n mod 10)" by (rule digit_char_digit)
    show ?thesis using IH d
      by (simp add: str_nat_large [OF False] parse_digits_snoc)
  qed
qed

lemma str_nat_chars: "c \<in> set (str_nat n) \<Longrightarrow> c \<notin> {CHR '':'', CHR ''-'', CHR ''+''}"
proof (induction n rule: str_nat.induct)
  case (1 n)
  show ?case
  proof (cases "n < 10")
    case True
    then have "c = digit_char n" using 1(2) by (simp add: str_nat_small)
    then show ?thesis using digit_char_not_sep [OF True] by simp
  next
    case False
    have m: "n mod 10 < 10" by simp
    from 1(2) have "c \<in> set (str_nat (n div 10) @ [digit_char (n mod 10)])"
      unfolding str_nat_large [OF False] .
    then have "c \<in> set (str_nat (n div 10)) \<or> c = digit_char (n mod 10)"
      by auto
    then show ?thesis
    proof
      assume "c \<in> set (str_nat (n div 10))"
      then show ?thesis using 1(1) [OF False] by simp
    next
      assume "c = digit_char (n mod 10)"
      then show ?thesis using digit_char_not_sep [OF m] by simp
    qed
  qed
qed

lemma str_nat_nonempty: "str_nat n \<noteq> []"
  by (cases "n < 10") (simp_all add: str_nat_small str_nat_large)

lemma int_str_str_int: "int_str (str_int i) = Some i"
proof (cases "i < 0")
  case True
  then show ?thesis
    by (simp add: int_str_def str_int_def str_nat_nonempty parse_str_nat)
next
  case False
  obtain c cs where cs: "str_nat (nat i) = c # cs"
    using str_nat_nonempty by (cases "str_nat (nat i)") auto
  then have "c \<in> set (str_nat (nat i))" by simp
  then have "c \<noteq> CHR ''-''" "c \<noteq> CHR ''+''" using str_nat_chars by blast+
  moreover have "parse_digits 0 (c # cs) = Some (nat i)" using parse_str_nat [of "nat i"] cs by simp
  ultimately show ?thesis using False cs
    by (simp add: int_str_def str_int_def)
qed

lemma str_int_no_colon: "CHR '':'' \<notin> set (str_int i)"
  using str_nat_chars by (auto simp: str_int_def)

lemma split_on_none: "sep \<notin> set xs \<Longrightarrow> split_on sep xs = [xs]"
  by (induction xs) auto

lemma split_on_first:
  "sep \<notin> set xs \<Longrightarrow> split_on sep (xs @ sep # ys) = xs # split_on sep ys"
  by (induction xs) auto

lemma class_name_no_colon: "CHR '':'' \<notin> set (class_name c)"
  by (cases c) simp_all

lemma split_repr_plain:
  assumes "colour c = Some s" "CHR '':'' \<notin> set s" "\<not> is_NumberedCard c"
  shows "split_on CHR '':'' (repr c) = [class_name c, s]"
proof -
  have "repr c = class_name c @ CHR '':'' # s"
    using assms by (cases c) (simp_all add: repr_def base_repr_def)
  then show ?thesis
    using split_on_first [OF class_name_no_colon, of c s] split_on_none [OF assms(2)] by simp
qed

lemma split_repr_numbered:
  assumes "CHR '':'' \<notin> set s"
  shows "split_on CHR '':'' (repr (NumberedCard (Some s) n)) = [''NumberedCard'', s, str_int n]"
proof -
  have r: "repr (NumberedCard (Some s) n) = ''NumberedCard'' @ CHR '':'' # (s @ CHR '':'' # str_int n)"
    by (simp add: repr_def base_repr_def)
  have 1: "CHR '':'' \<notin> set ''NumberedCard''" by simp
  show ?thesis unfolding r
    unfolding split_on_first [OF 1] split_on_first [OF assms] split_on_none [OF str_int_no_colon]
    by simp
qed

lemma split_repr_wild:
  "is_WildCard c \<or> is_DrawFourCard c \<Longrightarrow> hd (split_on CHR '':'' (repr c)) = class_name c"
proof -
  assume w: "is_WildCard c \<or> is_DrawFourCard c"
  obtain t where "repr c = class_name c @ CHR '':'' # t"
    using w by (cases c) (simp_all add: repr_def base_repr_def)
  then show ?thesis using split_on_first [OF class_name_no_colon, of c t] by simp
qed

lemma from_string_repr:
  assumes "plain_colour c"
  shows "from_string (repr c) = Inr (uncoloured c)"
proof (cases c)
  case (NumberedCard col n)
  then obtain s where s: "col = Some s" "CHR '':'' \<notin> set s"
    using assms by (auto simp: plain_colour_def split: option.splits)
  show ?thesis unfolding NumberedCard s(1) from_string_def split_repr_numbered [OF s(2)]
    by (simp add: int_str_str_int)
next
  case (SkipCard col)
  then obtain s where s: "colour c = Some s" "CHR '':'' \<notin> set s"
    using assms by (auto simp: plain_colour_def split: option.splits)
  have "\<not> is_NumberedCard c" using SkipCard by simp
  from split_repr_plain [OF s this] show ?thesis using SkipCard s
    by (simp add: from_string_def)
next
  case (DrawTwoCard col)
  then obtain s where s: "colour c = Some s" "CHR '':'' \<notin> set s"
    using assms by (auto simp: plain_colour_def split: option.splits)
  have "\<not> is_NumberedCard c" using DrawTwoCard by simp
  from split_repr_plain [OF s this] show ?thesis using DrawTwoCard s
    by (simp add: from_string_def)
next
  case (ReverseCard col)
  then obtain s where s: "colour c = Some s" "CHR '':'' \<notin> set s"
    using assms by (auto simp: plain_colour_def split: option.splits)
  have "\<not> is_NumberedCard c" using ReverseCard by simp
  from split_repr_plain [OF s this] show ?thesis using ReverseCard s
    by (simp add: from_string_def)
next
  case (DrawFourCard col)
  then have "hd (split_on CHR '':'' (repr c)) = ''DrawFourCard''"
    using split_repr_wild [of c] by simp
  then show ?thesis using DrawFourCard by (simp add: from_string_def)
next
  case (WildCard col)
  then have "hd (split_on CHR '':'' (repr c)) = ''WildCard''"
    using split_repr_wild [of c] by simp
  then show ?thesis using WildCard by (simp add: from_string_def)
qed

lemma load_cards_repr:
  assumes "list_all plain_colour cs"
  shows "load_cards (map repr cs) h =
           Inr ([length h..<length h + length cs], h @ map uncoloured cs)"
  using assms
proof (induction cs arbitrary: h)
  case Nil
  then show ?case by simp
next
  case (Cons c cs)
  then have 1: "from_string (repr c) = Inr (uncoloured c)" and 2: "list_all plain_colour cs"
    by (simp_all add: from_string_repr)
  have lt: "length h < length h + length (c # cs)" by simp
  have e: "length h + length (c # cs) = Suc (length h) + length cs" by simp
  have u: "[length h..<length h + length (c # cs)] =
             length h # [Suc (length h)..<Suc (length h) + length cs]"
    using upt_conv_Cons [OF lt] unfolding e .
  have "load_cards (map repr (c # cs)) h =
          (case load_cards (map repr cs) (h @ [uncoloured c]) of
             Inl e \<Rightarrow> Inl e
           | Inr (as, h') \<Rightarrow> Inr (length h # as, h'))"
    using 1 by simp
  also have "\<dots> = Inr (length h # [Suc (length h)..<Suc (length h) + length cs],
                        (h @ [uncoloured c]) @ map uncoloured cs)"
    using Cons.IH [OF 2, of "h @ [uncoloured c]"] by simp
  finally show ?case unfolding u by simp
qed

lemma nth_block:
  "map (\<lambda>a. (h @ vs @ rest) ! a) [length h..<length h + length vs] = vs"
  by (rule nth_equalityI) (simp_all add: nth_append)

lemma update_fresh: "k \<notin> fst ` set al \<Longrightarrow> AList.update k v al = al @ [(k, v)]"
  by (induction al) auto

lemma foldl_update_fresh:
  assumes "distinct (map name ps)" "\<And>p. p \<in> set ps \<Longrightarrow> name p \<notin> fst ` set base"
  shows "foldl (\<lambda>d p. AList.update (name p) (val p) d) base ps = base @ map (\<lambda>p. (name p, val p)) ps"
  using assms
proof (induction ps arbitrary: base)
  case Nil
  then show ?case by simp
next
  case (Cons p ps)
  have fresh: "name p \<notin> fst ` set base" using Cons.prems(2) by simp
  have d: "distinct (map name ps)" and np: "name p \<notin> name ` set ps" using Cons.prems(1) by auto
  have f2: "name q \<notin> fst ` set (base @ [(name p, val p)])" if "q \<in> set ps" for q
  proof -
    have "name q \<noteq> name p" using that np by (metis imageI)
    moreover have "name q \<notin> fst ` set base" using that Cons.prems(2) [of q] by simp
    ultimately show ?thesis by auto
  qed
  show ?case using Cons.IH [OF d f2] by (simp add: update_fresh [OF fresh])
qed

lemma load_players_skip:
  assumes "list_all (\<lambda>e. \<not> sublist ''Player'' (fst e)) base"
  shows "load_players (base @ entries) h = load_players entries h"
  using assms by (induction base) auto

lemma load_players_saved:
  assumes "list_all (\<lambda>p. sublist ''Player'' (name p)) ps"
    and "list_all (\<lambda>p. list_all (\<lambda>a. plain_colour (hp ! a)) (hand p)) ps"
  shows "\<exists>ps' h'.
           load_players
             (map (\<lambda>p. (name p, JDict [(''human'', JBool (human p)),
                                        (''cards'', JStrings (map (\<lambda>a. repr (hp ! a)) (hand p)))])) ps) h =
             Inr (ps', h') \<and>
           h' = h @ concat (map (\<lambda>p. map (\<lambda>a. uncoloured (hp ! a)) (hand p)) ps) \<and>
           (\<forall>rest. map (\<lambda>p. (name p, human p, map (\<lambda>a. (h' @ rest) ! a) (hand p))) ps' =
                   map (\<lambda>p. (name p, human p, map (\<lambda>a. uncoloured (hp ! a)) (hand p))) ps)"
  using assms
proof (induction ps arbitrary: h)
  case Nil
  then show ?case by simp
next
  case (Cons p ps)
  define vals where "vals = map (\<lambda>a. uncoloured (hp ! a)) (hand p)"
  define cs where "cs = map (\<lambda>a. hp ! a) (hand p)"
  have pl: "list_all plain_colour cs" using Cons.prems(2) by (simp add: cs_def list_all_iff)
  have strs: "map (\<lambda>a. repr (hp ! a)) (hand p) = map repr cs" by (simp add: cs_def)
  have v: "vals = map uncoloured cs" by (simp add: vals_def cs_def)
  have lc: "load_cards (map (\<lambda>a. repr (hp ! a)) (hand p)) h =
              Inr ([length h..<length h + length vals], h @ vals)"
    unfolding strs using load_cards_repr [OF pl, of h] by (simp add: v)
  have 1: "list_all (\<lambda>p. sublist ''Player'' (name p)) ps"
    and 2: "list_all (\<lambda>p. list_all (\<lambda>a. plain_colour (hp ! a)) (hand p)) ps"
    and n: "sublist ''Player'' (name p)"
    using Cons.prems by simp_all
  from Cons.IH [OF 1 2, of "h @ vals"] obtain ps' h' where
    r: "load_players
             (map (\<lambda>p. (name p, JDict [(''human'', JBool (human p)),
                                        (''cards'', JStrings (map (\<lambda>a. repr (hp ! a)) (hand p)))])) ps) (h @ vals) =
             Inr (ps', h')"
    and h': "h' = (h @ vals) @ concat (map (\<lambda>p. map (\<lambda>a. uncoloured (hp ! a)) (hand p)) ps)"
    and v': "\<And>rest. map (\<lambda>p. (name p, human p, map (\<lambda>a. (h' @ rest) ! a) (hand p))) ps' =
                   map (\<lambda>p. (name p, human p, map (\<lambda>a. uncoloured (hp ! a)) (hand p))) ps"
    by blast
  let ?q = "\<lparr>name = name p, human = human p, hand = [length h..<length h + length vals]\<rparr>"
  have res: "load_players
             (map (\<lambda>p. (name p, JDict [(''human'', JBool (human p)),
                                        (''cards'', JStrings (map (\<lambda>a. repr (hp ! a)) (hand p)))])) (p # ps)) h =
             Inr (?q # ps', h')"
    using n lc r by (simp add: get_bool_def get_strings_def)
  have hd: "map (\<lambda>a. (h' @ rest) ! a) [length h..<length h + length vals] = vals" for rest
  proof -
    have "h' @ rest = h @ vals @ (concat (map (\<lambda>p. map (\<lambda>a. uncoloured (hp ! a)) (hand p)) ps) @ rest)"
      by (simp add: h')
    then show ?thesis using nth_block [of h vals] by simp
  qed
  have "h' = h @ concat (map (\<lambda>p. map (\<lambda>a. uncoloured (hp ! a)) (hand p)) (p # ps))"
    by (simp add: h' vals_def)
  moreover have "map (\<lambda>p. (name p, human p, map (\<lambda>a. (h' @ rest) ! a) (hand p))) (?q # ps') =
                   map (\<lambda>p. (name p, human p, map (\<lambda>a. uncoloured (hp ! a)) (hand p))) (p # ps)" for rest
    using hd [of rest] v' [of rest] by (simp add: vals_def)
  ultimately show ?case using res by blast
qed

lemma player_not_key:
  assumes "sublist ''Player'' k"
  shows "k \<notin> {''deck'', ''pile'', ''turn'', ''spin'', ''jump_in'', ''stacking'', ''seven_zero''}"
proof
  assume "k \<in> {''deck'', ''pile'', ''turn'', ''spin'', ''jump_in'', ''stacking'', ''seven_zero''}"
  then have "\<not> sublist ''Player'' k" by (auto simp: sublist_code)
  then show False using assms by simp
qed

lemma save_game_shape:
  assumes "distinct (map name (player_list g))"
    and "list_all (\<lambda>p. sublist ''Player'' (name p)) (player_list g)"
  shows "save_game g =
     [(''deck'', JStrings (map (\<lambda>a. repr (heap g ! a)) (deck g))),
      (''pile'', JStrings (map (\<lambda>a. repr (heap g ! a)) (pile g))),
      (''turn'', JInt (turn g)),
      (''spin'', JInt (spin g)),
      (''jump_in'', JBool (jump_in g)),
      (''stacking'', JBool (stacking g)),
      (''seven_zero'', JBool (seven_zero g))] @
     map (\<lambda>p. (name p, JDict [(''human'', JBool (human p)),
                                (''cards'', JStrings (map (\<lambda>a. repr (heap g ! a)) (hand p)))]))
       (player_list g)"
  unfolding save_game_def
proof (rule foldl_update_fresh [OF assms(1)])
  fix p assume "p \<in> set (player_list g)"
  then have "sublist ''Player'' (name p)" using assms(2) by (simp add: list_all_iff)
  from player_not_key [OF this]
  show "name p \<notin> fst ` set [(''deck'', JStrings (map (\<lambda>a. repr (heap g ! a)) (deck g))),
      (''pile'', JStrings (map (\<lambda>a. repr (heap g ! a)) (pile g))),
      (''turn'', JInt (turn g)),
      (''spin'', JInt (spin g)),
      (''jump_in'', JBool (jump_in g)),
      (''stacking'', JBool (stacking g)),
      (''seven_zero'', JBool (seven_zero g))]"
    by simp
qed

text \<open>
  Claim C9 fails as stated: a WildCard on the pile with the colour red is saved as
  \<^verbatim>\<open>WildCard:Red\<close>, and \<^verbatim>\<open>from_string\<close> rebuilds it with \<^verbatim>\<open>WildCard(game)\<close>, without a
  colour; the loaded state is not deeply equal to the saved one.
\<close>

theorem wild_colour_lost_counterexample:
  "heap ex_saved ! last (pile ex_saved) = WildCard (Some ''Red'') \<and>
   (case load_game (save_game ex_saved) [] [] of
      Inl _ \<Rightarrow> False
    | Inr g' \<Rightarrow> heap g' ! last (pile g') = WildCard None \<and> view g' \<noteq> view ex_saved)"
  by code_simp

text \<open>
  Claim C9, amended. Let the players' names be distinct and contain \<^verbatim>\<open>Player\<close> (as the
  names of every game do), and let every card of the four coloured classes in the deck,
  the pile and the hands carry a colour without a colon. Then loading what \<open>save_game\<close>
  produced succeeds, and the loaded state shows the players' names, human flags and
  hands, the deck, the pile, the turn, the spin and the three rules of the saved state,
  card for card (class, colour, number), except that every WildCard and DrawFourCard
  comes back without a colour.
\<close>

theorem save_load_round_trip:
  assumes names: "distinct (map name (player_list g))"
    and players: "list_all (\<lambda>p. sublist ''Player'' (name p)) (player_list g)"
    and cards: "list_all (\<lambda>a. plain_colour (heap g ! a))
                  (deck g @ pile g @ concat (map hand (player_list g)))"
  shows "\<exists>g'. load_game (save_game g) picks lines = Inr g' \<and> view g' = view_through uncoloured g"
proof -
  define base where "base =
     [(''deck'', JStrings (map (\<lambda>a. repr (heap g ! a)) (deck g))),
      (''pile'', JStrings (map (\<lambda>a. repr (heap g ! a)) (pile g))),
      (''turn'', JInt (turn g)),
      (''spin'', JInt (spin g)),
      (''jump_in'', JBool (jump_in g)),
      (''stacking'', JBool (stacking g)),
      (''seven_zero'', JBool (seven_zero g))]"
  define entries where "entries =
     map (\<lambda>p. (name p, JDict [(''human'', JBool (human p)),
                                (''cards'', JStrings (map (\<lambda>a. repr (heap g ! a)) (hand p)))]))
       (player_list g)"
  define dvals where "dvals = map (\<lambda>a. uncoloured (heap g ! a)) (deck g)"
  define pvals where "pvals = map (\<lambda>a. uncoloured (heap g ! a)) (pile g)"
  have sv: "save_game g = base @ entries"
    unfolding base_def entries_def by (rule save_game_shape [OF names players])
  have skip: "list_all (\<lambda>e. \<not> sublist ''Player'' (fst e)) base"
    by (simp add: base_def sublist_code)
  have hands: "list_all (\<lambda>p. list_all (\<lambda>a. plain_colour (heap g ! a)) (hand p)) (player_list g)"
    using cards by (auto simp: list_all_iff)
  from load_players_saved [OF players hands, of "[]"] obtain ps' h1 where
    lp: "load_players entries [] = Inr (ps', h1)"
    and pv: "\<And>rest. map (\<lambda>p. (name p, human p, map (\<lambda>a. (h1 @ rest) ! a) (hand p))) ps' =
               map (\<lambda>p. (name p, human p, map (\<lambda>a. uncoloured (heap g ! a)) (hand p))) (player_list g)"
    unfolding entries_def by blast
  have lp': "load_players (base @ entries) [] = Inr (ps', h1)"
    using load_players_skip [OF skip, of entries "[]"] lp by simp
  define dstrs where "dstrs = map repr (map (\<lambda>a. heap g ! a) (deck g))"
  define pstrs where "pstrs = map repr (map (\<lambda>a. heap g ! a) (pile g))"
  have gd: "get_strings (base @ entries) ''deck'' = Inr dstrs"
    by (simp add: get_strings_def base_def map_add_def dstrs_def)
  have gp: "get_strings (base @ entries) ''pile'' = Inr pstrs"
    by (simp add: get_strings_def base_def map_add_def pstrs_def)
  have gi: "get_int (base @ entries) ''turn'' 1 = Inr (turn g)"
    "get_int (base @ entries) ''spin'' 1 = Inr (spin g)"
    by (simp_all add: get_int_def base_def map_add_def)
  have gb: "get_bool (base @ entries) ''jump_in'' False = Inr (jump_in g)"
    "get_bool (base @ entries) ''stacking'' False = Inr (stacking g)"
    "get_bool (base @ entries) ''seven_zero'' False = Inr (seven_zero g)"
    by (simp_all add: get_bool_def base_def map_add_def)
  have dpl: "list_all plain_colour (map (\<lambda>a. heap g ! a) (deck g))"
    and ppl: "list_all plain_colour (map (\<lambda>a. heap g ! a) (pile g))"
    using cards by (auto simp: list_all_iff)
  have ld: "load_cards dstrs h1 = Inr ([length h1..<length h1 + length dvals], h1 @ dvals)"
    unfolding dstrs_def using load_cards_repr [OF dpl, of h1] by (simp add: dvals_def comp_def)
  have lpile: "load_cards pstrs (h1 @ dvals) =
              Inr ([length (h1 @ dvals)..<length (h1 @ dvals) + length pvals], (h1 @ dvals) @ pvals)"
    unfolding pstrs_def using load_cards_repr [OF ppl, of "h1 @ dvals"]
    by (simp add: pvals_def comp_def)
  define g' where "g' =
     \<lparr>heap = (h1 @ dvals) @ pvals, player_list = ps',
      deck = [length h1..<length h1 + length dvals],
      pile = [length (h1 @ dvals)..<length (h1 @ dvals) + length pvals],
      turn = turn g, spin = spin g, jump_in = jump_in g, stacking = stacking g,
      seven_zero = seven_zero g, rnd = picks, inp = lines, offers = []\<rparr>"
  have res: "load_game (save_game g) picks lines = Inr g'"
    unfolding sv load_game_def lp' gd gp gi gb g'_def by (simp add: ld lpile del: append_assoc)
  have v1: "map (\<lambda>p. (name p, human p, map (\<lambda>a. heap g' ! a) (hand p))) (player_list g') =
           map (\<lambda>p. (name p, human p, map (\<lambda>a. uncoloured (heap g ! a)) (hand p))) (player_list g)"
    using pv [of "dvals @ pvals"] by (simp add: g'_def)
  have v2: "map (\<lambda>a. heap g' ! a) (deck g') = dvals"
    using nth_block [of h1 dvals pvals] by (simp add: g'_def)
  have v3: "map (\<lambda>a. heap g' ! a) (pile g') = pvals"
    using nth_block [of "h1 @ dvals" pvals "[]"] by (simp add: g'_def)
  have "view g' = view_through uncoloured g"
    unfolding view_def view_through_def v1 v2 v3 by (simp add: dvals_def pvals_def g'_def)
  with res show ?thesis by blast
qed

theorem save_load_round_trip_witness:
  "distinct (map name (player_list ex_saved)) \<and>
   list_all (\<lambda>p. sublist ''Player'' (name p)) (player_list ex_saved) \<and>
   list_all (\<lambda>a. plain_colour (heap ex_saved ! a))
     (deck ex_saved @ pile ex_saved @ concat (map hand (player_list ex_saved))) \<and>
   (\<exists>g'. load_game (save_game ex_saved) [] [] = Inr g' \<and> view g' = view_through uncoloured ex_saved)"
proof -
  have 1: "distinct (map name (player_list ex_saved))" by (simp add: ex_saved_def)
  have 2: "list_all (\<lambda>p. sublist ''Player'' (name p)) (player_list ex_saved)"
    by (simp add: ex_saved_def sublist_code)
  have 3: "list_all (\<lambda>a. plain_colour (heap ex_saved ! a))
     (deck ex_saved @ pile ex_saved @ concat (map hand (player_list ex_saved)))"
    by (simp add: ex_saved_def plain_colour_def)
  show ?thesis using 1 2 3 save_load_round_trip [OF 1 2 3, of "[]" "[]"] by blast
qed

subsection \<open>Draw counts and the number of cards\<close>

lemma py_remove_length: "py_remove h x xs = Some ys \<Longrightarrow> length xs = Suc (length ys)"
  by (induction xs arbitrary: ys) (auto split: if_splits)

lemma reshuffle_frame:
  "reshuffle n g = Inr g' \<Longrightarrow>
     player_list g' = player_list g \<and> heap g' = heap g \<and> stacking g' = stacking g \<and>
     length (deck g') + length (pile g') = length (deck g) + length (pile g)"
proof (induction n arbitrary: g)
  case 0
  then show ?case by simp
next
  case (Suc n)
  then obtain c cs pile' where p: "pile g = c # cs" and r: "py_remove (heap g) c (pile g) = Some pile'"
    and rec: "reshuffle n (g\<lparr>pile := pile', deck := deck g @ [c]\<rparr>) = Inr g'"
    by (auto split: list.splits option.splits)
  from py_remove_length [OF r] Suc.IH [OF rec] show ?case by simp
qed

lemma deal_card_frame:
  assumes "deal_card g (Some i) = Inr (c, g')"
  shows "player_list g' = set_hand (player_list g) i (hand (player_list g ! i) @ [c]) \<and>
         heap g' = heap g \<and> stacking g' = stacking g \<and>
         Suc (length (deck g') + length (pile g')) = length (deck g) + length (pile g)"
proof -
  obtain x g1 where rc: "random_choice g (deck g) = Inr (x, g1)"
    using assms by (auto simp: deal_card_def split: sum.splits)
  then have g1: "g1 = g\<lparr>rnd := tl (rnd g)\<rparr>"
    by (auto simp: random_choice_def split: if_splits list.splits)
  obtain deck' where rm: "py_remove (heap g) x (deck g) = Some deck'"
    using assms rc by (auto simp: deal_card_def g1 split: option.splits)
  define g3 where "g3 = g\<lparr>rnd := tl (rnd g), deck := deck',
      player_list := set_hand (player_list g) i (hand (player_list g ! i) @ [x])\<rparr>"
  have unfold: "deal_card g (Some i) =
      (if deck' = [] then
         (case reshuffle (length (pile g) - 1) g3 of Inl e \<Rightarrow> Inl e | Inr g4 \<Rightarrow> Inr (x, g4))
       else Inr (x, g3))"
    unfolding deal_card_def rc by (simp add: g1 rm g3_def)
  have len: "length (deck g) = Suc (length deck')"
    using py_remove_length [OF rm] .
  show ?thesis
  proof (cases "deck' = []")
    case True
    then have "(case reshuffle (length (pile g) - 1) g3 of Inl e \<Rightarrow> Inl e | Inr g4 \<Rightarrow> Inr (x, g4)) =
                Inr (c, g')"
      using assms unfold by simp
    then obtain g4 where r4: "reshuffle (length (pile g) - 1) g3 = Inr g4" and e: "c = x" "g' = g4"
      by (auto split: sum.splits)
    from reshuffle_frame [OF r4] len show ?thesis by (simp add: e g3_def)
  next
    case False
    then have "Inr (x, g3) = Inr (c, g')" using assms unfold by simp
    then have "c = x" "g' = g3" by auto
    then show ?thesis using len by (simp add: g3_def)
  qed
qed

lemma deal_cards_hand:
  assumes "deal_cards n g (Some i) = Inr g'" "i < length (player_list g)"
  shows "length (player_list g') = length (player_list g) \<and>
         length (hand (player_list g' ! i)) = length (hand (player_list g ! i)) + n"
  using assms
proof (induction n arbitrary: g)
  case 0
  then show ?case by simp
next
  case (Suc n)
  then obtain c g1 where d: "deal_card g (Some i) = Inr (c, g1)"
    and rec: "deal_cards n g1 (Some i) = Inr g'"
    by (auto split: sum.splits)
  from deal_card_frame [OF d]
  have pl: "player_list g1 = set_hand (player_list g) i (hand (player_list g ! i) @ [c])" by simp
  have l1: "length (player_list g1) = length (player_list g)" by (simp add: pl set_hand_def)
  have h1: "length (hand (player_list g1 ! i)) = Suc (length (hand (player_list g ! i)))"
    using Suc.prems(2) by (simp add: pl set_hand_def)
  have "i < length (player_list g1)" using Suc.prems(2) l1 by simp
  from Suc.IH [OF rec this] l1 h1 show ?case by simp
qed

lemma stack_count_run:
  assumes "stacking g" "pile g = pre @ run" "run \<noteq> []"
    and "list_all (\<lambda>a. cls (heap g ! a)) run"
    and "pre = [] \<or> \<not> cls (heap g ! last pre)"
  shows "stack_count cls g = length run"
proof -
  have r: "rev (butlast (pile g)) = rev (butlast run) @ rev pre"
    using assms(2,3) by (simp add: butlast_append)
  have a: "cls (heap g ! a)" if "a \<in> set (rev (butlast run))" for a
    using that assms(4) by (auto simp: list_all_iff dest: in_set_butlastD)
  have t: "takeWhile (\<lambda>a. cls (heap g ! a)) (rev pre) = []"
    using assms(5) by (cases pre rule: rev_cases) auto
  have "takeWhile (\<lambda>a. cls (heap g ! a)) (rev (butlast run) @ rev pre) =
          rev (butlast run) @ takeWhile (\<lambda>a. cls (heap g ! a)) (rev pre)"
    by (rule takeWhile_append2) (rule a)
  then have "takeWhile (\<lambda>a. cls (heap g ! a)) (rev (butlast (pile g))) = rev (butlast run)"
    unfolding r t by simp
  then show ?thesis using assms(1,3) by (simp add: stack_count_def)
qed

text \<open>
  Whatever the count of stacked cards, \<^verbatim>\<open>DrawTwoCard.activate\<close> adds two cards to the hand.
\<close>

lemma DrawTwo_activate_draws_two:
  assumes "i < length (player_list g)" and "DrawTwoCard_activate g (Some i) = Inr g'"
  shows "length (hand (player_list g' ! i)) = length (hand (player_list g ! i)) + 2"
proof -
  obtain g1 where d: "deal_cards 2 g (Some i) = Inr g1"
    and e: "g' = g1\<lparr>turn := next_turn g1\<rparr>"
    using assms(2) by (auto simp: DrawTwoCard_activate_def and_then_def split: sum.splits)
  from deal_cards_hand [OF d assms(1)] show ?thesis by (simp add: e)
qed

text \<open>
  Property X1: the DrawFourCard side of the forced draw. Under stacking, when the pile ends in a
  maximal run of DrawFourCards, a forced draw that \<^verbatim>\<open>DrawFourCard.activate\<close> completes
  adds four cards per card of the run to the hand of the penalised player.
\<close>

theorem DrawFour_stack_draws_all:
  assumes "stacking g" and "pile g = pre @ run" and "run \<noteq> []"
    and "list_all (\<lambda>a. is_DrawFourCard (heap g ! a)) run"
    and "pre = [] \<or> \<not> is_DrawFourCard (heap g ! last pre)"
    and "i < length (player_list g)"
    and "DrawFourCard_activate g (Some i) = Inr g'"
  shows "length (hand (player_list g' ! i)) = length (hand (player_list g ! i)) + 4 * length run"
proof -
  have c: "stack_count is_DrawFourCard g = length run"
    using assms(1-5) by (rule stack_count_run)
  obtain g1 where d: "deal_cards (4 * length run) g (Some i) = Inr g1"
    and e: "g' = g1\<lparr>turn := next_turn g1\<rparr>"
    using assms(7) by (auto simp: DrawFourCard_activate_def and_then_def c split: sum.splits)
  from deal_cards_hand [OF d assms(6)] show ?thesis by (simp add: e)
qed

theorem DrawFour_stack_draws_all_witness:
  "stacking ex_four \<and> pile ex_four = [4] @ [0, 1] \<and>
   list_all (\<lambda>a. is_DrawFourCard (heap ex_four ! a)) [0, 1] \<and>
   (\<exists>g'. DrawFourCard_activate ex_four (Some 1) = Inr g' \<and>
      length (hand (player_list g' ! 1)) = length (hand (player_list ex_four ! 1)) + 4 * length [0, 1::nat])"
proof -
  have 1: "stacking ex_four" by (simp add: ex_four_def)
  have 2: "pile ex_four = [4] @ [0, 1]" by (simp add: ex_four_def)
  have 3: "[0, 1::nat] \<noteq> []" by simp
  have 4: "list_all (\<lambda>a. is_DrawFourCard (heap ex_four ! a)) [0, 1]" by (simp add: ex_four_def)
  have 5: "[4::nat] = [] \<or> \<not> is_DrawFourCard (heap ex_four ! last [4])" by (simp add: ex_four_def)
  have 6: "1 < length (player_list ex_four)" by (simp add: ex_four_def)
  obtain g' where 7: "DrawFourCard_activate ex_four (Some 1) = Inr g'"
  proof -
    have "case DrawFourCard_activate ex_four (Some 1) of Inl _ \<Rightarrow> False | Inr g \<Rightarrow> True"
      by code_simp
    then show ?thesis using that by (auto split: sum.splits)
  qed
  show ?thesis using 1 2 4 7 DrawFour_stack_draws_all [OF 1 2 3 4 5 6 7] by blast
qed

lemma hands_sum_add:
  assumes "i < length ps"
  shows "sum_list (map (\<lambda>p. length (hand p)) (set_hand ps i (hand (ps ! i) @ [c]))) =
           Suc (sum_list (map (\<lambda>p. length (hand p)) ps))"
proof -
  have "ps = take i ps @ ps ! i # drop (Suc i) ps" using assms by (simp add: id_take_nth_drop)
  then obtain xs y ys where ps: "ps = xs @ y # ys" and l: "length xs = i" and y: "ps ! i = y"
    using assms by (metis length_take min.absorb2 less_imp_le)
  have "set_hand ps i (hand (ps ! i) @ [c]) = xs @ (y\<lparr>hand := hand y @ [c]\<rparr>) # ys"
    unfolding set_hand_def y unfolding ps l [symmetric] by (rule list_update_length)
  then show ?thesis unfolding ps by simp
qed

theorem deal_card_keeps_total:
  assumes "deal_card g (Some i) = Inr (c, g')" and "i < length (player_list g)"
  shows "total_cards g' = total_cards g \<and> length (player_list g') = length (player_list g)"
proof -
  note f = deal_card_frame [OF assms(1)]
  have "sum_list (map (\<lambda>p. length (hand p)) (player_list g')) =
          Suc (sum_list (map (\<lambda>p. length (hand p)) (player_list g)))"
    using f hands_sum_add [OF assms(2)] by simp
  moreover have "length (player_list g') = length (player_list g)"
    using f by (simp add: set_hand_def)
  ultimately show ?thesis using f by (simp add: total_cards_def)
qed

lemma deal_round_total:
  assumes "deal_round ps g = Inr g'" "list_all (\<lambda>p. p < length (player_list g)) ps"
  shows "total_cards g' = total_cards g \<and> length (player_list g') = length (player_list g)"
  using assms
proof (induction ps arbitrary: g)
  case Nil
  then show ?case by simp
next
  case (Cons p ps)
  then obtain c g1 where d: "deal_card g (Some p) = Inr (c, g1)" and r: "deal_round ps g1 = Inr g'"
    by (auto split: sum.splits)
  have p: "p < length (player_list g)" using Cons.prems(2) by simp
  note k = deal_card_keeps_total [OF d p]
  have "list_all (\<lambda>p. p < length (player_list g1)) ps" using Cons.prems(2) k by simp
  from Cons.IH [OF r this] k show ?case by simp
qed

lemma deal_rounds_total:
  assumes "deal_rounds n g = Inr g'"
  shows "total_cards g' = total_cards g \<and> length (player_list g') = length (player_list g)"
  using assms
proof (induction n arbitrary: g)
  case 0
  then show ?case by simp
next
  case (Suc n)
  then obtain g1 where d: "deal_round [0..<length (player_list g)] g = Inr g1"
    and r: "deal_rounds n g1 = Inr g'"
    by (auto split: sum.splits)
  have "list_all (\<lambda>p. p < length (player_list g)) [0..<length (player_list g)]"
    by (simp add: list_all_iff)
  from deal_round_total [OF d this] Suc.IH [OF r] show ?case by simp
qed

lemma new_cards_count: "length (concat (map colour_cards COLOUR_LIST)) = 108"
  by code_simp

text \<open>
  Property X2. A new game that \<^verbatim>\<open>__init__\<close> completes holds 108 cards in the deck, the pile and the
  hands together, for every number of players and every sequence of picks.
\<close>

theorem new_game_total:
  assumes "new_game player_count human_count jump stack seven picks lines = Inr g"
  shows "total_cards g = 108"
proof -
  define g0 where "g0 =
       \<lparr>heap = [],
        player_list =
          map (\<lambda>count. \<lparr>name = ''Player '' @ str_int (int count), human = count \<le> human_count, hand = []\<rparr>)
            [1..<Suc (human_count + (player_count - human_count))],
        deck = [], pile = [], turn = 1, spin = 1,
        jump_in = jump, stacking = stack, seven_zero = seven,
        rnd = picks, inp = lines, offers = []\<rparr>"
  define g1 where "g1 = g0\<lparr>heap := heap g0 @ concat (map colour_cards COLOUR_LIST),
           deck := deck g0 @ [length (heap g0)..<length (heap g0) + length (concat (map colour_cards COLOUR_LIST))]\<rparr>"
  have "deal_rounds 7 g1 = Inr g"
    using assms by (simp add: new_game_def init_cards_def g0_def g1_def Let_def)
  from deal_rounds_total [OF this] have "total_cards g = total_cards g1" by simp
  also have "\<dots> = 108"
  proof -
    have "sum_list (map (\<lambda>p. length (hand p)) (player_list g1)) = 0"
      by (simp add: g1_def g0_def comp_def)
    then show ?thesis by (simp add: total_cards_def g1_def g0_def new_cards_count)
  qed
  finally show ?thesis .
qed

theorem new_game_total_witness:
  "(\<exists>g. new_game 2 1 False False False ex_picks [] = Inr g \<and> total_cards g = 108)"
proof -
  obtain g where g: "new_game 2 1 False False False ex_picks [] = Inr g"
  proof -
    have "case new_game 2 1 False False False ex_picks [] of Inl _ \<Rightarrow> False | Inr g \<Rightarrow> True"
      by code_simp
    then show ?thesis using that by (auto split: sum.splits)
  qed
  show ?thesis using g new_game_total [OF g] by blast
qed

end
